theory Spec2Isabelle
  imports Complex_Main "HOL-Library.AList_Mapping"
begin

section \<open>Data model of the auto-batching engine (AutoBatch.cpp)\<close>

text \<open>
  The primitive op codes the engine distinguishes by name. Every other member of the
  enumeration is \<open>OtherOp n\<close>. The source has \<^verbatim>\<open>#define BarrierOp NoOp\<close>: the
  barrier op is not an op code of its own, it is the same value as \<open>NoOp\<close>.
\<close>

datatype PrimitiveOpType =
  StopGradient | Pass | NoOp | Reshape | Slice | Times | Splice | OtherOp nat

abbreviation BarrierOp :: PrimitiveOpType where
  "BarrierOp \<equiv> NoOp"

datatype VariableKind = Input | Placeholder | Parameter | Constant | Output

datatype DictionaryValue = IntValue int | AxisValue int | OtherValue nat

type_synonym Dictionary = "(string, DictionaryValue) mapping"

type_synonym NDShape = "nat list"

text \<open>
  The failures of the source: \<open>LogicError\<close> throws, \<open>assert\<close> aborts (in a build
  without \<open>NDEBUG\<close>; with \<open>NDEBUG\<close> it expands to nothing), and reading through a
  null pointer or past the end of a vector has no defined behaviour.
  \<open>Diverges\<close> is no failure of the source: the recursions and the loop of the engine
  are modelled with a bound on their depth, and \<open>Diverges\<close> is the result when the bound
  is reached.
\<close>

datatype error =
  LogicError string | AssertionFailed | NullDereference | IndexOutOfRange | Diverges

text \<open>
  A tensor object. \<open>nd_id\<close> is the identity of the object (two pointers are the same
  pointer iff the ids agree), \<open>nd_buffer\<close> the storage allocation it views, and
  \<open>nd_offset\<close> the first element of the view within that storage.
\<close>

record NDArrayView =
  nd_id :: nat
  nd_buffer :: nat
  nd_offset :: nat
  nd_shape :: NDShape
  nd_dataType :: nat
  nd_device :: nat
  nd_sparse :: bool

text \<open>
  The two function-local statics of \<open>AllocateTensorInArena\<close>, and the counter the
  allocator of the process hands fresh objects out from.
\<close>

record Arena =
  m_currentArena :: "NDArrayView option"
  m_currentArenaUsed :: nat
  next_id :: nat

definition ARENASIZE :: nat where
  "ARENASIZE = 64000000"

text \<open>Modelled from the spec: \<open>NDShape::TotalSize\<close>, the number of elements of a shape.\<close>

definition TotalSize :: "NDShape \<Rightarrow> nat" where
  "TotalSize shape = prod_list shape"

text \<open>
  Modelled from the spec: \<open>make_shared<NDArrayView>(dataType, Dense, shape, device)\<close>,
  a dense tensor on storage of its own.
\<close>

definition make_NDArrayView :: "nat \<Rightarrow> NDShape \<Rightarrow> nat \<Rightarrow> Arena \<Rightarrow> NDArrayView \<times> Arena" where
  "make_NDArrayView dataType shape device a =
     (\<lparr>nd_id = next_id a, nd_buffer = next_id a, nd_offset = 0, nd_shape = shape,
       nd_dataType = dataType, nd_device = device, nd_sparse = False\<rparr>,
      a\<lparr>next_id := next_id a + 1\<rparr>)"

text \<open>
  Modelled from the spec: \<open>NDArrayView::SliceView\<close> on a flat tensor (a new view of the
  same storage, \<open>extent\<close> elements from \<open>startOffset\<close>) and \<open>NDArrayView::AsShape\<close>
  (a new view of the same elements under another shape).
\<close>

definition SliceView :: "NDArrayView \<Rightarrow> nat \<Rightarrow> nat \<Rightarrow> Arena \<Rightarrow> NDArrayView \<times> Arena" where
  "SliceView v startOffset extent a =
     (v\<lparr>nd_id := next_id a, nd_offset := nd_offset v + startOffset, nd_shape := [extent]\<rparr>,
      a\<lparr>next_id := next_id a + 1\<rparr>)"

definition AsShape :: "NDArrayView \<Rightarrow> NDShape \<Rightarrow> Arena \<Rightarrow> NDArrayView \<times> Arena" where
  "AsShape v shape a =
     (v\<lparr>nd_id := next_id a, nd_shape := shape\<rparr>, a\<lparr>next_id := next_id a + 1\<rparr>)"

subsection \<open>The arena allocator\<close>

text \<open>
  The element counts are \<open>size_t\<close> in the source and natural numbers here. The one
  subtraction, \<open>ARENASIZE - m_currentArenaUsed\<close>, does not wrap: the used mark never
  exceeds \<open>ARENASIZE\<close> (\<open>arena_ok\<close> below, which every allocation keeps).
\<close>

definition AllocateTensorInArena :: "NDShape \<Rightarrow> nat \<Rightarrow> nat \<Rightarrow> Arena \<Rightarrow> NDArrayView \<times> Arena" where
  "AllocateTensorInArena shape dataType device a =
     (let numElements = TotalSize shape in
      if numElements > ARENASIZE then make_NDArrayView dataType shape device a
      else
        let (arena, a1) =
              (case m_currentArena a of
                 None \<Rightarrow>
                   (let (blk, a') = make_NDArrayView dataType [ARENASIZE] device a
                    in (blk, a'\<lparr>m_currentArena := Some blk, m_currentArenaUsed := 0\<rparr>))
               | Some cur \<Rightarrow>
                   if numElements > ARENASIZE - m_currentArenaUsed a
                   then (let (blk, a') = make_NDArrayView dataType [ARENASIZE] device a
                         in (blk, a'\<lparr>m_currentArena := Some blk, m_currentArenaUsed := 0\<rparr>))
                   else (cur, a));
            (region, a2) = SliceView arena (m_currentArenaUsed a1) numElements a1;
            a3 = a2\<lparr>m_currentArenaUsed := m_currentArenaUsed a2 + numElements\<rparr>
        in AsShape region shape a3)"

text \<open>The state of a process that has not allocated yet: the statics are zero.\<close>

definition initial_arena :: Arena where
  "initial_arena = \<lparr>m_currentArena = None, m_currentArenaUsed = 0, next_id = 0\<rparr>"

text \<open>
  What every reachable allocator state satisfies: the block is flat, has \<open>ARENASIZE\<close>
  elements from offset 0, was handed out before, and is not used past its end.
\<close>

definition arena_ok :: "Arena \<Rightarrow> bool" where
  "arena_ok a =
     (m_currentArenaUsed a \<le> ARENASIZE \<and>
      (case m_currentArena a of
         None \<Rightarrow> True
       | Some blk \<Rightarrow> nd_buffer blk < next_id a \<and> nd_offset blk = 0 \<and> nd_shape blk = [ARENASIZE]))"

text \<open>The elements of the storage a tensor covers, and whether it lives in the current block.\<close>

definition nd_range :: "NDArrayView \<Rightarrow> nat set" where
  "nd_range v = {nd_offset v ..< nd_offset v + TotalSize (nd_shape v)}"

definition in_current_arena :: "NDArrayView \<Rightarrow> Arena \<Rightarrow> bool" where
  "in_current_arena v a =
     (case m_currentArena a of None \<Rightarrow> False | Some blk \<Rightarrow> nd_buffer v = nd_buffer blk)"

subsection \<open>Variables and functions\<close>

text \<open>
  A \<open>Variable\<close> is two shared pointers: to its data fields (the identity of the
  variable; addresses are natural numbers) and to an owning function.
\<close>

record Variable =
  m_dataFields :: nat
  m_outputComposite :: "nat option"

text \<open>
  The fields of a variable. \<open>m_lazyIndex\<close> is the pair of the batched function (null
  when the variable is not a lazy view) and the index; \<open>m_consumers\<close> is the pair of
  the first consumer (with a function pointer that may be null) and the vector of the
  further ones.
\<close>

record VariableFields =
  m_shape :: NDShape
  m_varKind :: VariableKind
  m_dataType :: nat
  m_needsGradient :: bool
  m_value :: "NDArrayView option"
  m_gradient :: "NDArrayView option"
  m_lazyIndex :: "nat option \<times> nat"
  m_consumers :: "(nat option \<times> nat) \<times> (nat \<times> nat) list"
  m_visited :: bool
  m_ownerFunction :: "nat option"

record Function =
  m_op :: PrimitiveOpType
  m_inputs :: "Variable list"
  m_outputs :: "Variable list"
  m_attributes :: Dictionary
  m_pendingInputs :: int

text \<open>\<open>Variable::Shape()\<close> reads the shape through the data fields.\<close>

definition Shape :: "(nat \<Rightarrow> VariableFields) \<Rightarrow> Variable \<Rightarrow> NDShape" where
  "Shape vs v = m_shape (vs (m_dataFields v))"

subsection \<open>The ready set\<close>

definition IsViewOp :: "PrimitiveOpType \<Rightarrow> bool" where
  "IsViewOp op =
     (op = StopGradient \<or> op = Pass \<or> op = NoOp \<or> op = BarrierOp \<or> op = Reshape \<or> op = Slice)"

text \<open>
  \<open>NonOwningFunctionListBuilder\<close> as the source has it: the head, the count and the
  tail of a list that is threaded through the \<open>m_link\<close> fields of the functions
  (\<open>link\<close>, by address). The tail is meaningful only when the list is not empty.
\<close>

record NonOwningFunctionListBuilder =
  list_head :: "nat option"
  list_count :: nat
  list_tail :: nat

definition list_clear :: NonOwningFunctionListBuilder where
  "list_clear = \<lparr>list_head = None, list_count = 0, list_tail = 0\<rparr>"

definition list_of_one ::
  "nat \<Rightarrow> (nat \<Rightarrow> nat option) \<Rightarrow> NonOwningFunctionListBuilder \<times> (nat \<Rightarrow> nat option)" where
  "list_of_one f link = (\<lparr>list_head = Some f, list_count = 1, list_tail = f\<rparr>, link(f := None))"

definition push_back ::
  "nat \<Rightarrow> NonOwningFunctionListBuilder \<Rightarrow> (nat \<Rightarrow> nat option) \<Rightarrow>
   NonOwningFunctionListBuilder \<times> (nat \<Rightarrow> nat option)" where
  "push_back f l link =
     (let (h, link1) = (if list_head l = None then (Some f, link)
                        else (list_head l, link(list_tail l := Some f)))
      in (\<lparr>list_head = h, list_count = list_count l + 1, list_tail = f\<rparr>, link1(f := None)))"

text \<open>
  The functions that the iterator of the list visits, from \<open>h\<close> along the links to the
  null pointer, are \<open>xs\<close>; and a builder stands for the list \<open>xs\<close>.
\<close>

primrec linked :: "(nat \<Rightarrow> nat option) \<Rightarrow> nat option \<Rightarrow> nat list \<Rightarrow> bool" where
  "linked link h [] = (h = None)"
| "linked link h (x # xs) = (h = Some x \<and> linked link (link x) xs)"

definition stands_for ::
  "NonOwningFunctionListBuilder \<Rightarrow> (nat \<Rightarrow> nat option) \<Rightarrow> nat list \<Rightarrow> bool" where
  "stands_for l link xs =
     (linked link (list_head l) xs \<and> list_count l = length xs \<and> distinct xs \<and>
      (xs \<noteq> [] \<longrightarrow> list_tail l = last xs))"

text \<open>
  The three ready sets. In the rest of the model a \<open>NonOwningFunctionList\<close> is the list
  of the functions' addresses in link order, and \<open>size()\<close> is its length: the list a
  builder \<open>stands_for\<close>. \<open>push_back\<close> appends to that list and leaves every list
  alone that does not hold the new function or the old tail (lemma
  \<open>push_back_appends\<close>); this needs that a function stands in one list at a time, which
  holds because a function is scheduled once per pass.
\<close>

record ReadyOps =
  m_viewOps :: "nat list"
  m_regularOps :: "nat list list"
  m_barrierOps :: "nat list"

definition no_ready_ops :: ReadyOps where
  "no_ready_ops = \<lparr>m_viewOps = [], m_regularOps = [], m_barrierOps = []\<rparr>"

text \<open>The body of the loop of \<open>AreBatchable\<close> over the input positions.\<close>

definition inputs_match :: "(nat \<Rightarrow> VariableFields) \<Rightarrow> Function \<Rightarrow> Function \<Rightarrow> nat \<Rightarrow> bool" where
  "inputs_match vs a b i =
     (let ia = m_inputs a ! i; ib = m_inputs b ! i in
      if m_op a = Times \<and> i = 0 then m_dataFields ia = m_dataFields ib
      else Shape vs ia = Shape vs ib)"

text \<open>
  The loop itself, over the positions of the inputs of \<open>a\<close>. \<open>b->m_inputs[i]\<close> is
  read with the unchecked \<open>operator[]\<close>: at a position past the end of the inputs of
  \<open>b\<close> the read has no defined behaviour, and the model stops there.
\<close>

fun AreBatchable_inputs ::
  "(nat \<Rightarrow> VariableFields) \<Rightarrow> Function \<Rightarrow> Function \<Rightarrow> nat list \<Rightarrow> error + bool" where
  "AreBatchable_inputs vs a b [] = Inr True"
| "AreBatchable_inputs vs a b (i # rest) =
     (if length (m_inputs b) \<le> i then Inl IndexOutOfRange
      else if \<not> inputs_match vs a b i then Inr False
      else AreBatchable_inputs vs a b rest)"

text \<open>
  \<open>AreBatchable\<close>. The number of inputs is compared by an \<open>assert\<close> only, so the
  comparison depends on the build: the first argument says whether \<open>NDEBUG\<close> is
  defined. Without \<open>NDEBUG\<close> two functions of the same op and a different number of
  inputs abort the program; with \<open>NDEBUG\<close> nothing compares the two numbers.
\<close>

definition AreBatchable ::
  "bool \<Rightarrow> (nat \<Rightarrow> VariableFields) \<Rightarrow> Function \<Rightarrow> Function \<Rightarrow> error + bool" where
  "AreBatchable ndebug vs a b =
     (let op = m_op a in
      if IsViewOp op \<and> op \<noteq> BarrierOp
      then Inl (LogicError ''should not get here for view ops or barrier ops'')
      else if op \<noteq> m_op b then Inr False
      else if \<not> ndebug \<and> length (m_inputs a) \<noteq> length (m_inputs b) then Inl AssertionFailed
      else
        (case AreBatchable_inputs vs a b [0..<length (m_inputs a)] of
           Inl e \<Rightarrow> Inl e
         | Inr False \<Rightarrow> Inr False
         | Inr True \<Rightarrow> if m_attributes a \<noteq> m_attributes b then Inr False else Inr True))"

text \<open>
  The linear scan of \<open>Schedule\<close> over the regular sets: the function joins the first
  set whose front is batchable with it, or a new set at the end.
\<close>

fun Schedule_scan ::
  "bool \<Rightarrow> (nat \<Rightarrow> VariableFields) \<Rightarrow> (nat \<Rightarrow> Function) \<Rightarrow> nat \<Rightarrow> nat list list \<Rightarrow>
   error + nat list list" where
  "Schedule_scan ndebug vs fs f [] = Inr [[f]]"
| "Schedule_scan ndebug vs fs f (b # bs) =
     (case b of
        [] \<Rightarrow> Inl NullDereference
      | g # _ \<Rightarrow>
          (case AreBatchable ndebug vs (fs f) (fs g) of
             Inl e \<Rightarrow> Inl e
           | Inr True \<Rightarrow> Inr ((b @ [f]) # bs)
           | Inr False \<Rightarrow>
               (case Schedule_scan ndebug vs fs f bs of
                  Inl e \<Rightarrow> Inl e
                | Inr bs' \<Rightarrow> Inr (b # bs'))))"

definition Schedule ::
  "bool \<Rightarrow> (nat \<Rightarrow> VariableFields) \<Rightarrow> (nat \<Rightarrow> Function) \<Rightarrow> nat \<Rightarrow> ReadyOps \<Rightarrow> error + ReadyOps" where
  "Schedule ndebug vs fs f r =
     (let op = m_op (fs f) in
      if op = BarrierOp then Inr (r\<lparr>m_barrierOps := m_barrierOps r @ [f]\<rparr>)
      else if IsViewOp op then Inr (r\<lparr>m_viewOps := m_viewOps r @ [f]\<rparr>)
      else
        (case Schedule_scan ndebug vs fs f (m_regularOps r) of
           Inl e \<Rightarrow> Inl e
         | Inr bs \<Rightarrow> Inr (r\<lparr>m_regularOps := bs\<rparr>)))"

definition ReadyOps_empty :: "ReadyOps \<Rightarrow> bool" where
  "ReadyOps_empty r = (m_viewOps r = [] \<and> m_regularOps r = [] \<and> m_barrierOps r = [])"

text \<open>
  The loop of \<open>pop_best\<close>: \<open>best\<close> starts at the first set and moves to a later one
  only when that one is strictly larger.
\<close>

definition best_bucket :: "nat list list \<Rightarrow> nat" where
  "best_bucket bs =
     fold (\<lambda>iter best. if length (bs ! iter) > length (bs ! best) then iter else best)
       [1..<length bs] 0"

definition pop_best :: "ReadyOps \<Rightarrow> nat list \<times> ReadyOps" where
  "pop_best r =
     (if m_viewOps r \<noteq> [] then (m_viewOps r, r\<lparr>m_viewOps := []\<rparr>)
      else if m_regularOps r \<noteq> [] then
        (let best = best_bucket (m_regularOps r)
         in (m_regularOps r ! best,
             r\<lparr>m_regularOps := take best (m_regularOps r) @ drop (Suc best) (m_regularOps r)\<rparr>))
      else (m_barrierOps r, r\<lparr>m_barrierOps := []\<rparr>))"

subsection \<open>The engine's state\<close>

text \<open>
  The objects the engine works on (the data fields of the variables and the functions,
  by address), the storage of the tensors (by storage allocation and element), the
  ready set, the allocator's state, and the counters fresh addresses come from.
\<close>

record Memoize =
  vars :: "nat \<Rightarrow> VariableFields"
  funs :: "nat \<Rightarrow> Function"
  mem :: "nat \<Rightarrow> nat \<Rightarrow> real"
  m_schedule :: ReadyOps
  arena :: Arena
  next_var :: nat
  next_fun :: nat
  m_numBatchedLaunches :: nat

definition set_pendingInputs :: "nat \<Rightarrow> int \<Rightarrow> Memoize \<Rightarrow> Memoize" where
  "set_pendingInputs f n s = s\<lparr>funs := (funs s)(f := (funs s f)\<lparr>m_pendingInputs := n\<rparr>)\<rparr>"

definition NotifyInputAvailable :: "bool \<Rightarrow> nat \<Rightarrow> Memoize \<Rightarrow> error + Memoize" where
  "NotifyInputAvailable ndebug f s =
     (if m_pendingInputs (funs s f) \<le> 0
      then Inl (LogicError ''NotifyInputAvailable: pending inputs already 0 yet we are executing it'')
      else
        let s1 = set_pendingInputs f (m_pendingInputs (funs s f) - 1) s in
        if m_pendingInputs (funs s1 f) = 0
        then (case Schedule ndebug (vars s1) (funs s1) f (m_schedule s1) of
                Inl e \<Rightarrow> Inl e
              | Inr r \<Rightarrow> Inr (s1\<lparr>m_schedule := r\<rparr>))
        else Inr s1)"

subsection \<open>Lazily created gradients\<close>

definition SIZE_MAX :: nat where
  "SIZE_MAX = 2 ^ 64 - 1"

text \<open>
  Modelled from the spec: \<open>NDArrayView::IndexLastAxis\<close>, a new view of the \<open>index\<close>-th
  slice along the last axis (the slowest one: the slices are contiguous), and
  \<open>NDArrayView::SetValue\<close>, which writes one value to every element of a view.
\<close>

definition IndexLastAxis :: "NDArrayView \<Rightarrow> nat \<Rightarrow> Arena \<Rightarrow> NDArrayView \<times> Arena" where
  "IndexLastAxis v index a =
     (v\<lparr>nd_id := next_id a,
        nd_offset := nd_offset v + index * TotalSize (butlast (nd_shape v)),
        nd_shape := butlast (nd_shape v)\<rparr>,
      a\<lparr>next_id := next_id a + 1\<rparr>)"

definition SetValue :: "NDArrayView \<Rightarrow> real \<Rightarrow> (nat \<Rightarrow> nat \<Rightarrow> real) \<Rightarrow> (nat \<Rightarrow> nat \<Rightarrow> real)" where
  "SetValue v c m = (\<lambda>b i. if b = nd_buffer v \<and> i \<in> nd_range v then c else m b i)"

definition set_value :: "nat \<Rightarrow> NDArrayView option \<Rightarrow> Memoize \<Rightarrow> Memoize" where
  "set_value d x s = s\<lparr>vars := (vars s)(d := (vars s d)\<lparr>m_value := x\<rparr>)\<rparr>"

definition set_gradient :: "nat \<Rightarrow> NDArrayView option \<Rightarrow> Memoize \<Rightarrow> Memoize" where
  "set_gradient d x s = s\<lparr>vars := (vars s)(d := (vars s d)\<lparr>m_gradient := x\<rparr>)\<rparr>"

text \<open>
  \<open>LazilyCreateLazilyIndexedGradient\<close>. The first argument bounds the depth of the
  recursion along the lazy indices.
\<close>

fun LazilyCreateLazilyIndexedGradient :: "nat \<Rightarrow> Variable \<Rightarrow> Memoize \<Rightarrow> error + (real \<times> Memoize)" where
  "LazilyCreateLazilyIndexedGradient 0 v s = Inl Diverges"
| "LazilyCreateLazilyIndexedGradient (Suc n) v s =
     (let d = m_dataFields v in
      case m_gradient (vars s d) of
        Some g \<Rightarrow> Inr (1, s)
      | None \<Rightarrow>
          (case fst (m_lazyIndex (vars s d)) of
             Some from \<Rightarrow>
               (let index = snd (m_lazyIndex (vars s d)) in
                case m_outputs (funs s from) of
                  [] \<Rightarrow> Inl IndexOutOfRange
                | fromOutput # _ \<Rightarrow>
                    (case LazilyCreateLazilyIndexedGradient n fromOutput s of
                       Inl e \<Rightarrow> Inl e
                     | Inr (beta, s1) \<Rightarrow>
                         (case m_gradient (vars s1 (m_dataFields fromOutput)) of
                            None \<Rightarrow>
                              if index = SIZE_MAX then Inr (beta, set_gradient d None s1)
                              else Inl NullDereference
                          | Some fromGradient \<Rightarrow>
                              if index = SIZE_MAX
                              then Inr (beta, set_gradient d (Some fromGradient) s1)
                              else
                                let s2 = (if beta = 0
                                          then s1\<lparr>mem := SetValue fromGradient 0 (mem s1)\<rparr>
                                          else s1);
                                    (view, a') = IndexLastAxis fromGradient index (arena s2)
                                in Inr (1, set_gradient d (Some view) (s2\<lparr>arena := a'\<rparr>)))))
           | None \<Rightarrow>
               (case m_value (vars s d) of
                  None \<Rightarrow> Inl NullDereference
                | Some val \<Rightarrow>
                    let (g, a') = AllocateTensorInArena (m_shape (vars s d)) (m_dataType (vars s d))
                                    (nd_device val) (arena s)
                    in Inr (0, set_gradient d (Some g) (s\<lparr>arena := a'\<rparr>)))))"

text \<open>
  The chain of lazy indices that \<open>LazilyCreateLazilyIndexedGradient\<close> follows from a
  variable ends after \<open>k\<close> steps: at a variable that has a gradient or is no lazy view,
  or at a function without an output.
\<close>

inductive gradient_chain :: "Memoize \<Rightarrow> Variable \<Rightarrow> nat \<Rightarrow> bool" where
  chain_end:
    "m_gradient (vars s (m_dataFields v)) \<noteq> None \<or>
     fst (m_lazyIndex (vars s (m_dataFields v))) = None \<Longrightarrow> gradient_chain s v 0"
| chain_no_output:
    "m_gradient (vars s (m_dataFields v)) = None \<Longrightarrow>
     fst (m_lazyIndex (vars s (m_dataFields v))) = Some producer \<Longrightarrow>
     m_outputs (funs s producer) = [] \<Longrightarrow> gradient_chain s v 0"
| chain_step:
    "m_gradient (vars s (m_dataFields v)) = None \<Longrightarrow>
     fst (m_lazyIndex (vars s (m_dataFields v))) = Some producer \<Longrightarrow>
     m_outputs (funs s producer) = fromOutput # rest \<Longrightarrow>
     gradient_chain s fromOutput k \<Longrightarrow> gradient_chain s v (Suc k)"

subsection \<open>Collaborators and helpers of the forward pass\<close>

text \<open>
  The kernels are not part of the engine; it is parametrised by them.
  \<open>ComputeKnowableValue\<close> gets the op, the input values, the attributes, the output
  shape and the output buffer (or none), an identity for a tensor object it may create,
  and the storage; it returns the value and the storage. \<open>BackpropTo_kernel\<close> gets
  the output gradient, the input position, the op, the attributes, the output value, the
  input values, the gradient tensor of the input and beta, and updates the storage.
  \<open>InitValue\<close> is \<open>Variable::Value()\<close> on a parameter or constant whose value
  slot is empty: the value it initialises, if any. The record also holds the one setting
  of the build that the engine depends on: \<open>NDEBUG\<close> says whether the macro of that
  name is defined, so that the \<open>assert\<close>s are compiled to nothing.
\<close>

record Collaborators =
  ComputeKnowableValue ::
    "PrimitiveOpType \<Rightarrow> NDArrayView list \<Rightarrow> Dictionary \<Rightarrow> NDShape \<Rightarrow> NDArrayView option \<Rightarrow>
     nat \<Rightarrow> (nat \<Rightarrow> nat \<Rightarrow> real) \<Rightarrow> NDArrayView \<times> (nat \<Rightarrow> nat \<Rightarrow> real)"
  BackpropTo_kernel ::
    "NDArrayView \<Rightarrow> nat \<Rightarrow> PrimitiveOpType \<Rightarrow> Dictionary \<Rightarrow> NDArrayView \<Rightarrow> NDArrayView list \<Rightarrow>
     NDArrayView option \<Rightarrow> real \<Rightarrow> (nat \<Rightarrow> nat \<Rightarrow> real) \<Rightarrow> (nat \<Rightarrow> nat \<Rightarrow> real)"
  InitValue :: "nat \<Rightarrow> VariableFields \<Rightarrow> nat \<Rightarrow> NDArrayView option"
  NDEBUG :: bool

text \<open>The cast \<open>(int)\<close> of a \<open>size_t\<close>, and the sum of two \<open>size_t\<close>.\<close>

definition int_cast :: "nat \<Rightarrow> int" where
  "int_cast n = (let m = int n mod 2 ^ 32 in if m < 2 ^ 31 then m else m - 2 ^ 32)"

definition size_t_add :: "nat \<Rightarrow> nat \<Rightarrow> nat" where
  "size_t_add a b = (a + b) mod 2 ^ 64"

text \<open>
  Modelled from the spec: \<open>Function::RawPrimitiveFunction\<close>, which creates a function
  object that is not registered anywhere, with one fresh output variable of the given
  shape and the counter of pending inputs at its initial value -1; and
  \<open>NDShape::AppendAxis\<close>, which pads the shape with ones up to the axis and appends the
  dimension.
\<close>

definition RawPrimitiveFunction ::
  "PrimitiveOpType \<Rightarrow> Variable list \<Rightarrow> NDShape \<Rightarrow> Dictionary \<Rightarrow> Memoize \<Rightarrow> nat \<times> Memoize" where
  "RawPrimitiveFunction op inputs outputShape attrs s =
     (let f = next_fun s; out = next_var s;
          fields =
            \<lparr>m_shape = outputShape, m_varKind = Output,
             m_dataType = (case inputs of [] \<Rightarrow> 0 | i # _ \<Rightarrow> m_dataType (vars s (m_dataFields i))),
             m_needsGradient = list_ex (\<lambda>i. m_needsGradient (vars s (m_dataFields i))) inputs,
             m_value = None, m_gradient = None, m_lazyIndex = (None, 0),
             m_consumers = ((None, 0), []), m_visited = False, m_ownerFunction = Some f\<rparr>;
          fn =
            \<lparr>m_op = op, m_inputs = inputs,
             m_outputs = [\<lparr>m_dataFields = out, m_outputComposite = None\<rparr>],
             m_attributes = attrs, m_pendingInputs = - 1\<rparr>
      in (f, s\<lparr>vars := (vars s)(out := fields), funs := (funs s)(f := fn),
               next_var := out + 1, next_fun := f + 1\<rparr>))"

definition AppendAxis :: "NDShape \<Rightarrow> nat \<Rightarrow> nat \<Rightarrow> NDShape" where
  "AppendAxis shape axis dimension = shape @ replicate (axis - length shape) 1 @ [dimension]"

definition set_lazyIndex :: "nat \<Rightarrow> nat option \<times> nat \<Rightarrow> Memoize \<Rightarrow> Memoize" where
  "set_lazyIndex d x s = s\<lparr>vars := (vars s)(d := (vars s d)\<lparr>m_lazyIndex := x\<rparr>)\<rparr>"

definition set_consumers ::
  "nat \<Rightarrow> (nat option \<times> nat) \<times> (nat \<times> nat) list \<Rightarrow> Memoize \<Rightarrow> Memoize" where
  "set_consumers d x s = s\<lparr>vars := (vars s)(d := (vars s d)\<lparr>m_consumers := x\<rparr>)\<rparr>"

definition set_visited :: "nat \<Rightarrow> bool \<Rightarrow> Memoize \<Rightarrow> Memoize" where
  "set_visited d x s = s\<lparr>vars := (vars s)(d := (vars s d)\<lparr>m_visited := x\<rparr>)\<rparr>"

text \<open>
  Recording \<open>(f, i)\<close> as a consumer: in the first slot when its function pointer is
  null, at the end of the vector otherwise.
\<close>

definition add_consumer :: "nat \<Rightarrow> nat \<times> nat \<Rightarrow> Memoize \<Rightarrow> Memoize" where
  "add_consumer d c s =
     (let cs = m_consumers (vars s d) in
      if fst (fst cs) = None then set_consumers d ((Some (fst c), snd c), snd cs) s
      else set_consumers d (fst cs, snd cs @ [c]) s)"

text \<open>Clearing the consumers: the first function pointer is nulled, the vector emptied.\<close>

definition clear_consumers :: "nat \<Rightarrow> Memoize \<Rightarrow> Memoize" where
  "clear_consumers d s = set_consumers d ((None, snd (fst (m_consumers (vars s d)))), []) s"

subsection \<open>Forward: traversal\<close>

text \<open>
  \<open>TraverseFunctionTreeForward\<close>, with the loop over the inputs of the function as
  \<open>traverse_inputs\<close> (the position \<open>i\<close> and the local count \<open>pendingInputs\<close> are
  arguments). The first argument bounds the depth of the recursion.
\<close>

fun TraverseFunctionTreeForward :: "Collaborators \<Rightarrow> nat \<Rightarrow> Variable \<Rightarrow> Memoize \<Rightarrow> error + Memoize"
  and traverse_inputs ::
    "Collaborators \<Rightarrow> nat \<Rightarrow> nat \<Rightarrow> Variable list \<Rightarrow> nat \<Rightarrow> nat \<Rightarrow> Memoize \<Rightarrow> error + (nat \<times> Memoize)" where
  "TraverseFunctionTreeForward K 0 var s = Inl Diverges"
| "TraverseFunctionTreeForward K (Suc n) var s =
     (let d = m_dataFields var; fields = vars s d in
      if m_value fields \<noteq> None
      then Inl (LogicError ''TraverseFunctionTreeForward() should not have been called on variables that already have a value.'')
      else if m_varKind fields = Input \<or> m_varKind fields = Placeholder
      then Inl (LogicError ''Value() depends on Input or Placeholder, it is not knowable.'')
      else if m_varKind fields = Parameter \<or> m_varKind fields = Constant
      then
        (let s1 = (set_value d (InitValue K d fields (next_id (arena s))) s)
                    \<lparr>arena := (arena s)\<lparr>next_id := next_id (arena s) + 1\<rparr>\<rparr>
         in if m_value (vars s1 d) = None
            then Inl (LogicError ''Parameter/Constant has no Value??'')
            else Inr s1)
      else
        (case m_ownerFunction fields of
           None \<Rightarrow> Inl NullDereference
         | Some f \<Rightarrow>
             if m_pendingInputs (funs s f) \<noteq> - 1 then Inr s
             else
               (case traverse_inputs K n f (m_inputs (funs s f)) 0 0 s of
                  Inl e \<Rightarrow> Inl e
                | Inr (pendingInputs, s1) \<Rightarrow>
                    let s2 = set_pendingInputs f (int_cast pendingInputs) s1 in
                    if pendingInputs = 0
                    then (case Schedule (NDEBUG K) (vars s2) (funs s2) f (m_schedule s2) of
                            Inl e \<Rightarrow> Inl e
                          | Inr r \<Rightarrow> Inr (s2\<lparr>m_schedule := r\<rparr>))
                    else Inr s2)))"
| "traverse_inputs K n f [] i pendingInputs s = Inr (pendingInputs, s)"
| "traverse_inputs K n f (input # rest) i pendingInputs s =
     (let d = m_dataFields input in
      if m_value (vars s d) = None
      then
        (case TraverseFunctionTreeForward K n input s of
           Inl e \<Rightarrow> Inl e
         | Inr s1 \<Rightarrow>
             if m_value (vars s1 d) = None
             then traverse_inputs K n f rest (i + 1) (pendingInputs + 1) (add_consumer d (f, i) s1)
             else traverse_inputs K n f rest (i + 1) pendingInputs s1)
      else traverse_inputs K n f rest (i + 1) pendingInputs s)"

subsection \<open>Forward: values\<close>

text \<open>\<open>LazilyIndexedValue\<close>; the first argument bounds the depth of the recursion.\<close>

fun LazilyIndexedValue :: "nat \<Rightarrow> Variable \<Rightarrow> Memoize \<Rightarrow> error + (NDArrayView \<times> Memoize)" where
  "LazilyIndexedValue 0 v s = Inl Diverges"
| "LazilyIndexedValue (Suc n) v s =
     (let d = m_dataFields v in
      case m_value (vars s d) of
        Some val \<Rightarrow> Inr (val, s)
      | None \<Rightarrow>
          (case fst (m_lazyIndex (vars s d)) of
             None \<Rightarrow> Inl (LogicError ''LazilyIndexedValue: variable unexpectedly has no value yet, nor is it a slice view into a batched op'')
           | Some producer \<Rightarrow>
               (case m_outputs (funs s producer) of
                  [] \<Rightarrow> Inl IndexOutOfRange
                | out0 # _ \<Rightarrow>
                    (case LazilyIndexedValue n out0 s of
                       Inl e \<Rightarrow> Inl e
                     | Inr (from, s1) \<Rightarrow>
                         let index = snd (m_lazyIndex (vars s1 d)) in
                         if index = SIZE_MAX then Inr (from, set_value d (Some from) s1)
                         else
                           let (view, a') = IndexLastAxis from index (arena s1)
                           in Inr (view, set_value d (Some view) (s1\<lparr>arena := a'\<rparr>))))))"

text \<open>The loop of \<open>MemoizeKnowableValueInArena\<close> that fetches the values of all inputs.\<close>

fun input_values :: "nat \<Rightarrow> Variable list \<Rightarrow> Memoize \<Rightarrow> error + (NDArrayView list \<times> Memoize)" where
  "input_values n [] s = Inr ([], s)"
| "input_values n (input # rest) s =
     (case LazilyIndexedValue n input s of
        Inl e \<Rightarrow> Inl e
      | Inr (val, s1) \<Rightarrow>
          (case input_values n rest s1 of
             Inl e \<Rightarrow> Inl e
           | Inr (vals, s2) \<Rightarrow> Inr (val # vals, s2)))"

definition MemoizeKnowableValueInArena ::
  "Collaborators \<Rightarrow> nat \<Rightarrow> nat \<Rightarrow> bool \<Rightarrow> Memoize \<Rightarrow> error + (Variable \<times> Memoize)" where
  "MemoizeKnowableValueInArena K n f isFree s =
     (case m_outputs (funs s f) of
        [output] \<Rightarrow>
          (case input_values n (m_inputs (funs s f)) s of
             Inl e \<Rightarrow> Inl e
           | Inr (inputValues, s1) \<Rightarrow>
               let outputShape = Shape (vars s1) output in
               (case (if isFree then Inr (None, s1)
                      else (case inputValues of
                              [] \<Rightarrow> Inl IndexOutOfRange
                            | v0 # _ \<Rightarrow>
                                let (t, a') = AllocateTensorInArena outputShape (nd_dataType v0)
                                                (nd_device v0) (arena s1)
                                in Inr (Some t, s1\<lparr>arena := a'\<rparr>))) of
                  Inl e \<Rightarrow> Inl e
                | Inr (outValue, s2) \<Rightarrow>
                    let (val, m') = ComputeKnowableValue K (m_op (funs s2 f)) inputValues
                                      (m_attributes (funs s2 f)) outputShape outValue
                                      (next_id (arena s2)) (mem s2);
                        s3 = s2\<lparr>mem := m', arena := (arena s2)\<lparr>next_id := next_id (arena s2) + 1\<rparr>\<rparr>
                    in Inr (output, set_value (m_dataFields output) (Some val) s3)))
      | _ \<Rightarrow> Inl (LogicError ''MemoizeKnowableValueInArena: only functions with 1 output are supported''))"

definition ResetPendingToIdle :: "nat \<Rightarrow> Memoize \<Rightarrow> error + Memoize" where
  "ResetPendingToIdle f s =
     (if m_pendingInputs (funs s f) \<noteq> 0
      then Inl (LogicError ''ResetPendingToIdle: pendingINputs is not 0, so we should not have gotten here'')
      else Inr (set_pendingInputs f (- 1) s))"

subsection \<open>Forward: executing a batch\<close>

text \<open>
  The test \<open>doNaively\<close> of \<open>ExecuteBatchedOpAndUpdateSchedule\<close> on the batch
  \<open>ops\<close> with front \<open>f0\<close>. Reading the second input of a \<open>Times\<close> that has none
  is a read past the end of the vector.
\<close>

definition doNaively :: "Memoize \<Rightarrow> nat list \<Rightarrow> error + bool" where
  "doNaively s ops =
     (case ops of
        [] \<Rightarrow> Inl NullDereference
      | f0 # _ \<Rightarrow>
          let op = m_op (funs s f0); batchSize = length ops; isFree = IsViewOp op;
              isTimes = (op = Times)
          in if isFree then Inr True
             else if isTimes \<and> length (m_inputs (funs s f0)) < 2 then Inl IndexOutOfRange
             else if isTimes \<and>
                     (case m_value (vars s (m_dataFields (m_inputs (funs s f0) ! 1))) of
                        None \<Rightarrow> False
                      | Some val \<Rightarrow> nd_sparse val)
             then Inr True
             else Inr (op = Splice \<or> batchSize = 1))"

text \<open>Naive mode: every function of the batch is executed on its own and reset to idle.\<close>

fun execute_naively :: "Collaborators \<Rightarrow> nat \<Rightarrow> bool \<Rightarrow> nat list \<Rightarrow> Memoize \<Rightarrow> error + Memoize" where
  "execute_naively K n isFree [] s = Inr s"
| "execute_naively K n isFree (op # rest) s =
     (case MemoizeKnowableValueInArena K n op isFree s of
        Inl e \<Rightarrow> Inl e
      | Inr (out, s1) \<Rightarrow>
          (case ResetPendingToIdle op s1 of
             Inl e \<Rightarrow> Inl e
           | Inr s2 \<Rightarrow> execute_naively K n isFree rest s2))"

text \<open>
  Fused mode, input position \<open>i\<close>: the loop over the batch that collects the inputs at
  that position and finds out whether they are all the same, or consecutive slices of one
  batched function. The buffer \<open>m_spliceArgsBuffer\<close> is cleared at the end of every
  position and nothing else writes it, so it is empty where the source \<open>assert\<close>s so:
  the model starts every position from the empty list.
\<close>

fun gather_splice_inputs ::
  "Memoize \<Rightarrow> nat \<Rightarrow> nat \<Rightarrow> nat option \<times> nat \<Rightarrow> nat list \<Rightarrow> nat \<Rightarrow> bool \<Rightarrow> bool \<Rightarrow> Variable list \<Rightarrow>
   error + (bool \<times> bool \<times> nat \<times> Variable list)" where
  "gather_splice_inputs s i pfields0 lazyIndex0 [] j allSame allConsecutiveSlices spliceInputs =
     Inr (allSame, allConsecutiveSlices, j, spliceInputs)"
| "gather_splice_inputs s i pfields0 lazyIndex0 (op # rest) j allSame allConsecutiveSlices spliceInputs =
     (if i \<ge> length (m_inputs (funs s op)) then Inl IndexOutOfRange
      else
        let input = m_inputs (funs s op) ! i;
            pfields = m_dataFields input;
            lazyIndex = m_lazyIndex (vars s pfields);
            is0LazyIndex = (fst lazyIndex0 \<noteq> None);
            allSame' = (allSame \<and> (pfields = pfields0 \<or> (is0LazyIndex \<and> lazyIndex = lazyIndex0)));
            allConsecutiveSlices' =
              (if allConsecutiveSlices
               then allConsecutiveSlices \<and> fst lazyIndex = fst lazyIndex0 \<and>
                    snd lazyIndex = size_t_add (snd lazyIndex0) j
               else allConsecutiveSlices)
        in gather_splice_inputs s i pfields0 lazyIndex0 rest (j + 1) allSame' allConsecutiveSlices'
             (spliceInputs @ [input]))"

text \<open>
  Fused mode, input position \<open>i\<close>: the batched input, and whether it sets
  \<open>anyBatchedInputs\<close>.
\<close>

definition batch_input ::
  "Collaborators \<Rightarrow> nat \<Rightarrow> nat list \<Rightarrow> nat \<Rightarrow> nat \<Rightarrow> nat \<Rightarrow> Memoize \<Rightarrow> error + (Variable \<times> bool \<times> Memoize)" where
  "batch_input K n ops f0 maxRank i s =
     (if i \<ge> length (m_inputs (funs s f0)) then Inl IndexOutOfRange
      else
        let pfields0 = m_dataFields (m_inputs (funs s f0) ! i);
            lazyIndex0 = m_lazyIndex (vars s pfields0);
            is0LazyIndex = (fst lazyIndex0 \<noteq> None)
        in
        case gather_splice_inputs s i pfields0 lazyIndex0 ops 0 True
               (is0LazyIndex \<and> snd lazyIndex0 \<noteq> SIZE_MAX) [] of
          Inl e \<Rightarrow> Inl e
        | Inr (allSame, allConsecutiveSlices, j, spliceInputs) \<Rightarrow>
            if allSame then
              (case spliceInputs of
                 [] \<Rightarrow> Inl IndexOutOfRange
               | x # _ \<Rightarrow> Inr (x, False, s))
            else if allConsecutiveSlices then
              (case fst lazyIndex0 of
                 None \<Rightarrow> Inl NullDereference
               | Some producer \<Rightarrow>
                   (case m_outputs (funs s producer) of
                      [] \<Rightarrow> Inl IndexOutOfRange
                    | output # _ \<Rightarrow>
                        if m_value (vars s (m_dataFields output)) = None
                        then Inl (LogicError ''ExecuteBatchedOpAndUpdateSchedule: value not yet available??'')
                        else
                          let begin = snd lazyIndex0;
                              fromDims = Shape (vars s) output;
                              axis = (if fromDims = [] then SIZE_MAX else length fromDims - 1)
                          in
                          if axis \<ge> length fromDims then Inl IndexOutOfRange
                          else if begin = 0 \<and> j = fromDims ! axis then Inr (output, True, s)
                          else
                            let outputShape = fromDims[axis := j];
                                additionalProperties =
                                  Mapping.update ''endIndex'' (IntValue (int_cast (size_t_add begin j)))
                                    (Mapping.update ''beginIndex'' (IntValue (int_cast begin))
                                      (Mapping.update ''axis'' (AxisValue (int_cast axis)) Mapping.empty));
                                (spliceOp, s1) =
                                  RawPrimitiveFunction Slice [output] outputShape additionalProperties s
                            in
                            (case MemoizeKnowableValueInArena K n spliceOp True s1 of
                               Inl e \<Rightarrow> Inl e
                             | Inr (out, s2) \<Rightarrow>
                                 Inr (out\<lparr>m_outputComposite := Some spliceOp\<rparr>, True, s2))))
            else
              (case spliceInputs of
                 [] \<Rightarrow> Inl IndexOutOfRange
               | x # _ \<Rightarrow>
                   (case LazilyIndexedValue n x s of
                      Inl e \<Rightarrow> Inl e
                    | Inr (val, s1) \<Rightarrow>
                        let dims = nd_shape val;
                            outputShape =
                              (take maxRank dims @ replicate (maxRank - length dims) 1) @
                              [length spliceInputs];
                            additionalProperties =
                              Mapping.update ''axis'' (AxisValue (int_cast maxRank)) Mapping.empty;
                            (spliceOp, s2) =
                              RawPrimitiveFunction Splice spliceInputs outputShape additionalProperties s1
                        in
                        (case MemoizeKnowableValueInArena K n spliceOp False s2 of
                           Inl e \<Rightarrow> Inl e
                         | Inr (out, s3) \<Rightarrow>
                             Inr (out\<lparr>m_outputComposite := Some spliceOp\<rparr>, True, s3)))))"

text \<open>Fused mode: the loop over the input positions, filling \<open>m_batchedInputs\<close>.\<close>

fun batch_inputs ::
  "Collaborators \<Rightarrow> nat \<Rightarrow> nat list \<Rightarrow> nat \<Rightarrow> nat \<Rightarrow> nat list \<Rightarrow> Variable list \<Rightarrow> bool \<Rightarrow> Memoize \<Rightarrow>
   error + (Variable list \<times> bool \<times> Memoize)" where
  "batch_inputs K n ops f0 maxRank [] batchedInputs anyBatchedInputs s =
     Inr (batchedInputs, anyBatchedInputs, s)"
| "batch_inputs K n ops f0 maxRank (i # rest) batchedInputs anyBatchedInputs s =
     (case batch_input K n ops f0 maxRank i s of
        Inl e \<Rightarrow> Inl e
      | Inr (x, batched, s1) \<Rightarrow>
          batch_inputs K n ops f0 maxRank rest (batchedInputs @ [x]) (anyBatchedInputs \<or> batched) s1)"

text \<open>
  Fused mode: the results are implanted as lazy indices into the batched function, and
  the functions of the batch are reset to idle.
\<close>

fun implant_results :: "nat \<Rightarrow> nat list \<Rightarrow> nat \<Rightarrow> Memoize \<Rightarrow> error + Memoize" where
  "implant_results batchedOp [] j s = Inr s"
| "implant_results batchedOp (op # rest) j s =
     (case m_outputs (funs s op) of
        [] \<Rightarrow> Inl IndexOutOfRange
      | out # _ \<Rightarrow>
          (case ResetPendingToIdle op (set_lazyIndex (m_dataFields out) (Some batchedOp, j) s) of
             Inl e \<Rightarrow> Inl e
           | Inr s1 \<Rightarrow> implant_results batchedOp rest (if j \<noteq> SIZE_MAX then j + 1 else j) s1))"

definition execute_fused :: "Collaborators \<Rightarrow> nat \<Rightarrow> nat list \<Rightarrow> Memoize \<Rightarrow> error + Memoize" where
  "execute_fused K n ops s =
     (case ops of
        [] \<Rightarrow> Inl NullDereference
      | f0 # _ \<Rightarrow>
          let fn0 = funs s f0;
              batchSize = length ops;
              numArgs = length (m_inputs fn0);
              isTimes = (m_op fn0 = Times);
              i0 = (if isTimes then 1 else 0);
              maxRank = fold (\<lambda>i maxRank.
                                let rank = length (Shape (vars s) (m_inputs fn0 ! i))
                                in if rank > maxRank then rank else maxRank)
                          [i0..<numArgs] 0
          in
          if i0 = 1 \<and> numArgs = 0 then Inl IndexOutOfRange
          else
            (case batch_inputs K n ops f0 maxRank [i0..<numArgs]
                    (if i0 = 1 then [m_inputs fn0 ! 0] else []) False s of
               Inl e \<Rightarrow> Inl e
             | Inr (batchedInputs, anyBatchedInputs, s1) \<Rightarrow>
                 (case m_outputs (funs s1 f0) of
                    [] \<Rightarrow> Inl IndexOutOfRange
                  | out0 # _ \<Rightarrow>
                      let unbatchedOutputShape = Shape (vars s1) out0;
                          (batchedOp, s2) =
                            (if anyBatchedInputs
                             then RawPrimitiveFunction (m_op (funs s1 f0)) batchedInputs
                                    (AppendAxis unbatchedOutputShape maxRank batchSize)
                                    (m_attributes (funs s1 f0)) s1
                             else RawPrimitiveFunction (m_op (funs s1 f0)) (m_inputs (funs s1 f0))
                                    unbatchedOutputShape (m_attributes (funs s1 f0)) s1)
                      in
                      (case MemoizeKnowableValueInArena K n batchedOp False s2 of
                         Inl e \<Rightarrow> Inl e
                       | Inr (out, s3) \<Rightarrow>
                           implant_results batchedOp ops (if anyBatchedInputs then 0 else SIZE_MAX) s3))))"

text \<open>The consumers of the outputs of the batch are notified, and the consumer lists cleared.\<close>

fun notify_all :: "bool \<Rightarrow> nat list \<Rightarrow> Memoize \<Rightarrow> error + Memoize" where
  "notify_all ndebug [] s = Inr s"
| "notify_all ndebug (c # rest) s =
     (case NotifyInputAvailable ndebug c s of
        Inl e \<Rightarrow> Inl e
      | Inr s1 \<Rightarrow> notify_all ndebug rest s1)"

fun notify_outputs :: "bool \<Rightarrow> Variable list \<Rightarrow> Memoize \<Rightarrow> error + Memoize" where
  "notify_outputs ndebug [] s = Inr s"
| "notify_outputs ndebug (output # rest) s =
     (let d = m_dataFields output in
      case (case fst (fst (m_consumers (vars s d))) of
              Some c \<Rightarrow> NotifyInputAvailable ndebug c s
            | None \<Rightarrow> Inr s) of
        Inl e \<Rightarrow> Inl e
      | Inr s1 \<Rightarrow>
          (case notify_all ndebug (map fst (snd (m_consumers (vars s1 d)))) s1 of
             Inl e \<Rightarrow> Inl e
           | Inr s2 \<Rightarrow> notify_outputs ndebug rest (clear_consumers d s2)))"

fun notify_consumers :: "bool \<Rightarrow> nat list \<Rightarrow> Memoize \<Rightarrow> error + Memoize" where
  "notify_consumers ndebug [] s = Inr s"
| "notify_consumers ndebug (op # rest) s =
     (case notify_outputs ndebug (m_outputs (funs s op)) s of
        Inl e \<Rightarrow> Inl e
      | Inr s1 \<Rightarrow> notify_consumers ndebug rest s1)"

definition ExecuteBatchedOpAndUpdateSchedule ::
  "Collaborators \<Rightarrow> nat \<Rightarrow> nat list \<Rightarrow> Memoize \<Rightarrow> error + Memoize" where
  "ExecuteBatchedOpAndUpdateSchedule K n ops s =
     (case ops of
        [] \<Rightarrow> Inl NullDereference
      | f0 # _ \<Rightarrow>
          let isFree = IsViewOp (m_op (funs s f0));
              s0 = (if \<not> isFree then s\<lparr>m_numBatchedLaunches := m_numBatchedLaunches s + 1\<rparr> else s)
          in
          (case doNaively s0 ops of
             Inl e \<Rightarrow> Inl e
           | Inr naive \<Rightarrow>
               (case (if naive then execute_naively K n isFree ops s0 else execute_fused K n ops s0) of
                  Inl e \<Rightarrow> Inl e
                | Inr s1 \<Rightarrow> notify_consumers (NDEBUG K) ops s1)))"

subsection \<open>Forward: the entry point\<close>

text \<open>The loop of \<open>GetValue\<close>; the first argument bounds the number of batches.\<close>

fun run_schedule :: "Collaborators \<Rightarrow> nat \<Rightarrow> nat \<Rightarrow> Memoize \<Rightarrow> error + Memoize" where
  "run_schedule K n 0 s = (if ReadyOps_empty (m_schedule s) then Inr s else Inl Diverges)"
| "run_schedule K n (Suc k) s =
     (if ReadyOps_empty (m_schedule s) then Inr s
      else
        let (opBatch, r) = pop_best (m_schedule s) in
        (case ExecuteBatchedOpAndUpdateSchedule K n opBatch (s\<lparr>m_schedule := r\<rparr>) of
           Inl e \<Rightarrow> Inl e
         | Inr s1 \<Rightarrow> run_schedule K n k s1))"

text \<open>
  \<open>GetValue\<close>. \<open>AssertTreeStateGetValue\<close> is compiled to nothing (its body is
  disabled), so it does not appear. The \<open>assert\<close> after the loop aborts in a build
  without \<open>NDEBUG\<close>; with \<open>NDEBUG\<close> the call of \<open>LazilyIndexedValue\<close> that
  follows sees the empty slot. The bound \<open>n\<close> is the one of all the recursions and of
  the loop.
\<close>

definition GetValue :: "Collaborators \<Rightarrow> nat \<Rightarrow> Variable \<Rightarrow> Memoize \<Rightarrow> error + (NDArrayView \<times> Memoize)" where
  "GetValue K n v s =
     (let d = m_dataFields v in
      case m_value (vars s d) of
        Some val \<Rightarrow> Inr (val, s)
      | None \<Rightarrow>
          (case TraverseFunctionTreeForward K n v s of
             Inl e \<Rightarrow> Inl e
           | Inr s1 \<Rightarrow>
               (case run_schedule K n n s1 of
                  Inl e \<Rightarrow> Inl e
                | Inr s2 \<Rightarrow>
                    if \<not> NDEBUG K \<and> m_value (vars s2 d) = None then Inl AssertionFailed
                    else LazilyIndexedValue n v s2)))"

subsection \<open>Backward: the consumers\<close>

text \<open>
  The two overloads of \<open>DetermineConsumersForBackward\<close> (on a variable, and
  \<open>DetermineConsumersForBackward_f\<close> on a function) and the loop of the second over the
  inputs. The first argument bounds the depth of the recursion.
\<close>

fun DetermineConsumersForBackward :: "nat \<Rightarrow> Variable \<Rightarrow> Memoize \<Rightarrow> error + Memoize"
  and DetermineConsumersForBackward_f :: "nat \<Rightarrow> nat \<Rightarrow> Memoize \<Rightarrow> error + Memoize"
  and determine_inputs :: "nat \<Rightarrow> nat \<Rightarrow> Variable list \<Rightarrow> nat \<Rightarrow> Memoize \<Rightarrow> error + Memoize" where
  "DetermineConsumersForBackward 0 var s = Inl Diverges"
| "DetermineConsumersForBackward (Suc n) var s =
     (let d = m_dataFields var; s1 = set_visited d False s; fields = vars s1 d in
      if m_varKind fields = Parameter \<or> m_varKind fields = Constant then Inr s1
      else if m_value fields = None
      then Inl (LogicError ''DetermineConsumersForBackward: variable has no value yet??'')
      else if \<not> m_needsGradient fields
      then Inl (LogicError ''DetermineConsumersForBackward: unexpectedly encountered a node with m_needsGradient=false??'')
      else if m_varKind fields = Input \<or> m_varKind fields = Placeholder
      then Inl (LogicError ''DetermineConsumersForBackward: unexpectedly encountered an Input or a Placeholder??'')
      else
        (case fst (m_lazyIndex fields) of
           Some f \<Rightarrow> DetermineConsumersForBackward_f n f s1
         | None \<Rightarrow>
             (case m_ownerFunction fields of
                None \<Rightarrow> Inl NullDereference
              | Some f \<Rightarrow> DetermineConsumersForBackward_f n f s1)))"
| "DetermineConsumersForBackward_f 0 f s = Inl Diverges"
| "DetermineConsumersForBackward_f (Suc n) f s =
     (if m_pendingInputs (funs s f) = - 2
      then Inl (LogicError ''DetermineConsumersForBackward: unexpectedly encountered a cyclic graph??'')
      else if m_pendingInputs (funs s f) \<noteq> - 1 then Inr s
      else if m_op (funs s f) = StopGradient
      then Inl (LogicError ''DetermineConsumersForBackward: unexpectedly encountered a StopGradient, which should have propagated m_needsGradient=false upwards'')
      else
        let s1 = set_pendingInputs f (- 2) s in
        (case determine_inputs n f (m_inputs (funs s1 f)) 0 s1 of
           Inl e \<Rightarrow> Inl e
         | Inr s2 \<Rightarrow> Inr (set_pendingInputs f 0 s2)))"
| "determine_inputs n f [] i s = Inr s"
| "determine_inputs n f (x # rest) i s =
     (case (case fst (m_lazyIndex (vars s (m_dataFields x))) of
              Some producer \<Rightarrow>
                (case m_outputs (funs s producer) of
                   [] \<Rightarrow> Inl IndexOutOfRange
                 | out0 # _ \<Rightarrow> Inr out0)
            | None \<Rightarrow> Inr x) of
        Inl e \<Rightarrow> Inl e
      | Inr input \<Rightarrow>
          let d = m_dataFields input; s1 = set_visited d False s in
          if \<not> m_needsGradient (vars s1 d) then determine_inputs n f rest (i + 1) s1
          else
            (case DetermineConsumersForBackward n input
                    (add_consumer d (f, i) (set_gradient d None s1)) of
               Inl e \<Rightarrow> Inl e
             | Inr s2 \<Rightarrow> determine_inputs n f rest (i + 1) s2))"

subsection \<open>Backward: the gradients\<close>

text \<open>The loop of \<open>BackpropTo\<close> that collects the values of all inputs.\<close>

fun raw_input_values :: "Memoize \<Rightarrow> Variable list \<Rightarrow> error + NDArrayView list" where
  "raw_input_values s [] = Inr []"
| "raw_input_values s (input1 # rest) =
     (case m_value (vars s (m_dataFields input1)) of
        None \<Rightarrow> Inl (LogicError ''BackpropTo: unexpectedly ran into a function that has no m_value yet??'')
      | Some val \<Rightarrow>
          (case raw_input_values s rest of
             Inl e \<Rightarrow> Inl e
           | Inr vals \<Rightarrow> Inr (val # vals)))"

definition BackpropTo :: "Collaborators \<Rightarrow> nat \<Rightarrow> nat \<Rightarrow> nat \<Rightarrow> Memoize \<Rightarrow> error + Memoize" where
  "BackpropTo K n f index s =
     (let fn = funs s f in
      if index \<ge> length (m_inputs fn) then Inl IndexOutOfRange
      else
        let input = m_inputs fn ! index in
        if \<not> m_needsGradient (vars s (m_dataFields input))
        then Inl (LogicError ''BackpropTo: function unexpectedly does not need a gradient'')
        else
          (case m_outputs fn of
             [out] \<Rightarrow>
               let outputFields = vars s (m_dataFields out) in
               if fst (m_lazyIndex outputFields) \<noteq> None
               then Inl (LogicError ''BackpropTo: unexpectedly ran into a function that does not own its output'')
               else
                 (case m_value outputFields of
                    None \<Rightarrow> Inl (LogicError ''BackpropTo: unexpectedly ran into a function that has no m_value yet??'')
                  | Some outputValue \<Rightarrow>
                      (case m_gradient outputFields of
                         None \<Rightarrow> Inl (LogicError ''BackpropTo: unexpectedly ran into a function that has no m_gradient yet??'')
                       | Some outputGradient \<Rightarrow>
                           (case raw_input_values s (m_inputs fn) of
                              Inl e \<Rightarrow> Inl e
                            | Inr inputValues \<Rightarrow>
                                (case LazilyCreateLazilyIndexedGradient n input s of
                                   Inl e \<Rightarrow> Inl e
                                 | Inr (beta, s1) \<Rightarrow>
                                     Inr (s1\<lparr>mem :=
                                            BackpropTo_kernel K outputGradient index (m_op fn)
                                              (m_attributes fn) outputValue inputValues
                                              (m_gradient (vars s1 (m_dataFields input))) beta
                                              (mem s1)\<rparr>)))))
           | _ \<Rightarrow> Inl (LogicError ''BackpropTo: only functions with 1 output are currently supported'')))"

text \<open>
  \<open>DetermineBucket\<close>: whether the consumer goes to the bucket of the \<open>Times\<close>
  weights (otherwise to the bucket of the others). The two buckets are members of the
  engine that are empty between two uses; here they are the results of \<open>fill_buckets\<close>.
\<close>

definition DetermineBucket :: "Memoize \<Rightarrow> nat \<times> nat \<Rightarrow> error + bool" where
  "DetermineBucket s c =
     (if length (m_outputs (funs s (fst c))) \<noteq> 1
      then Inl (LogicError ''DetermineBucket: for now only functions with a single output are supported'')
      else Inr (m_op (funs s (fst c)) = Times \<and> snd c = 0))"

fun fill_buckets ::
  "Memoize \<Rightarrow> (nat \<times> nat) list \<Rightarrow> (nat \<times> nat) list \<Rightarrow> (nat \<times> nat) list \<Rightarrow>
   error + ((nat \<times> nat) list \<times> (nat \<times> nat) list)" where
  "fill_buckets s [] matrixWeightConsumers otherConsumers = Inr (matrixWeightConsumers, otherConsumers)"
| "fill_buckets s (c # rest) matrixWeightConsumers otherConsumers =
     (case DetermineBucket s c of
        Inl e \<Rightarrow> Inl e
      | Inr True \<Rightarrow> fill_buckets s rest (matrixWeightConsumers @ [c]) otherConsumers
      | Inr False \<Rightarrow> fill_buckets s rest matrixWeightConsumers (otherConsumers @ [c]))"

text \<open>\<open>BackpropToMatrixWeight\<close> and the loop over the other bucket: one \<open>BackpropTo\<close> each.\<close>

fun backprop_each :: "Collaborators \<Rightarrow> nat \<Rightarrow> (nat \<times> nat) list \<Rightarrow> Memoize \<Rightarrow> error + Memoize" where
  "backprop_each K n [] s = Inr s"
| "backprop_each K n (c # rest) s =
     (case BackpropTo K n (fst c) (snd c) s of
        Inl e \<Rightarrow> Inl e
      | Inr s1 \<Rightarrow> backprop_each K n rest s1)"

text \<open>
  \<open>AggregateGradientFromAllConsumers\<close>, with its loops over the outputs of a consumer
  and over the further consumers. The second argument bounds the depth of the recursion.
\<close>

fun AggregateGradientFromAllConsumers :: "Collaborators \<Rightarrow> nat \<Rightarrow> Variable \<Rightarrow> Memoize \<Rightarrow> error + Memoize"
  and aggregate_outputs :: "Collaborators \<Rightarrow> nat \<Rightarrow> Variable list \<Rightarrow> Memoize \<Rightarrow> error + Memoize"
  and aggregate_consumers :: "Collaborators \<Rightarrow> nat \<Rightarrow> (nat \<times> nat) list \<Rightarrow> Memoize \<Rightarrow> error + Memoize" where
  "AggregateGradientFromAllConsumers K 0 var s = Inl Diverges"
| "AggregateGradientFromAllConsumers K (Suc n) var s =
     (let d = m_dataFields var in
      if m_visited (vars s d) then Inr s
      else
        (case fst (fst (m_consumers (vars s d))) of
           None \<Rightarrow> Inr s
         | Some cf \<Rightarrow>
             if \<not> m_needsGradient (vars s d)
             then Inl (LogicError ''AggregateGradientFromAllConsumers: backprop into variable that does not need gradient'')
             else
               let s1 = set_visited d True s in
               (case aggregate_outputs K n (m_outputs (funs s1 cf)) s1 of
                  Inl e \<Rightarrow> Inl e
                | Inr s2 \<Rightarrow>
                    (case aggregate_consumers K n (snd (m_consumers (vars s2 d))) s2 of
                       Inl e \<Rightarrow> Inl e
                     | Inr s3 \<Rightarrow>
                         if m_varKind (vars s3 d) \<noteq> Parameter \<and> m_gradient (vars s3 d) \<noteq> None
                         then Inl (LogicError ''AggregateGradientFromAllConsumers: non-Parameter variable unexpectedly already has a gradient'')
                         else if snd (m_consumers (vars s3 d)) = []
                         then BackpropTo K n cf (snd (fst (m_consumers (vars s3 d)))) s3
                         else
                           (case fill_buckets s3
                                   ((cf, snd (fst (m_consumers (vars s3 d)))) #
                                    snd (m_consumers (vars s3 d))) [] [] of
                              Inl e \<Rightarrow> Inl e
                            | Inr (matrixWeightConsumers, otherConsumers) \<Rightarrow>
                                (case backprop_each K n matrixWeightConsumers s3 of
                                   Inl e \<Rightarrow> Inl e
                                 | Inr s4 \<Rightarrow> backprop_each K n otherConsumers s4))))))"
| "aggregate_outputs K n [] s = Inr s"
| "aggregate_outputs K n (output # rest) s =
     (case AggregateGradientFromAllConsumers K n output s of
        Inl e \<Rightarrow> Inl e
      | Inr s1 \<Rightarrow> aggregate_outputs K n rest s1)"
| "aggregate_consumers K n [] s = Inr s"
| "aggregate_consumers K n (c # rest) s =
     (case aggregate_outputs K n (m_outputs (funs s (fst c))) s of
        Inl e \<Rightarrow> Inl e
      | Inr s1 \<Rightarrow> aggregate_consumers K n rest s1)"

subsection \<open>Backward: the entry point\<close>

text \<open>
  The implicit first gradient of \<open>Backward\<close>: a new tensor of the root's shape from the
  arena, set to 1. \<open>root.Value()\<close> reads the value slot, which \<open>GetValue\<close> has filled.
\<close>

definition seed_root_gradient :: "Variable \<Rightarrow> Memoize \<Rightarrow> error + Memoize" where
  "seed_root_gradient root_var s =
     (let d = m_dataFields root_var in
      case m_value (vars s d) of
        None \<Rightarrow> Inl NullDereference
      | Some val \<Rightarrow>
          let (g, a') = AllocateTensorInArena (Shape (vars s) root_var) (m_dataType (vars s d))
                          (nd_device val) (arena s)
          in Inr (set_gradient d (Some g) (s\<lparr>arena := a', mem := SetValue g 1 (mem s)\<rparr>)))"

text \<open>
  The four loops of \<open>Backward\<close> over the map of requested gradients, which is the list
  of its entries in the order the map iterates them.
\<close>

fun implant_user_gradients :: "(Variable \<times> NDArrayView option) list \<Rightarrow> Memoize \<Rightarrow> Memoize" where
  "implant_user_gradients [] s = s"
| "implant_user_gradients (kv # rest) s =
     (let s1 = (case snd kv of
                  Some buf \<Rightarrow> s\<lparr>mem := SetValue buf 0 (mem s)\<rparr>
                | None \<Rightarrow> s)
      in implant_user_gradients rest (set_gradient (m_dataFields (fst kv)) (snd kv) s1))"

fun aggregate_all ::
  "Collaborators \<Rightarrow> nat \<Rightarrow> (Variable \<times> NDArrayView option) list \<Rightarrow> Memoize \<Rightarrow> error + Memoize" where
  "aggregate_all K n [] s = Inr s"
| "aggregate_all K n (kv # rest) s =
     (case AggregateGradientFromAllConsumers K n (fst kv) s of
        Inl e \<Rightarrow> Inl e
      | Inr s1 \<Rightarrow> aggregate_all K n rest s1)"

definition collect_gradients ::
  "(Variable \<times> NDArrayView option) list \<Rightarrow> Memoize \<Rightarrow> (Variable \<times> NDArrayView option) list" where
  "collect_gradients gradients s =
     map (\<lambda>kv. (fst kv, m_gradient (vars s (m_dataFields (fst kv))))) gradients"

fun clear_requested_consumers :: "(Variable \<times> NDArrayView option) list \<Rightarrow> Memoize \<Rightarrow> Memoize" where
  "clear_requested_consumers [] s = s"
| "clear_requested_consumers (kv # rest) s =
     clear_requested_consumers rest (clear_consumers (m_dataFields (fst kv)) s)"

text \<open>
  \<open>Backward\<close>. Its three \<open>logic_error(...)\<close> statements only construct an exception
  object and throw nothing, so they do not appear.
\<close>

definition Backward ::
  "Collaborators \<Rightarrow> nat \<Rightarrow> Variable \<Rightarrow> (Variable \<times> NDArrayView option) list \<Rightarrow> Memoize \<Rightarrow>
   error + ((Variable \<times> NDArrayView option) list \<times> Memoize)" where
  "Backward K n root_var gradients s =
     (case GetValue K n root_var s of
        Inl e \<Rightarrow> Inl e
      | Inr (val, s1) \<Rightarrow>
          (case DetermineConsumersForBackward n root_var s1 of
             Inl e \<Rightarrow> Inl e
           | Inr s2 \<Rightarrow>
               (case seed_root_gradient root_var s2 of
                  Inl e \<Rightarrow> Inl e
                | Inr s3 \<Rightarrow>
                    (case aggregate_all K n gradients (implant_user_gradients gradients s3) of
                       Inl e \<Rightarrow> Inl e
                     | Inr s4 \<Rightarrow>
                         Inr (collect_gradients gradients s4,
                              clear_requested_consumers gradients s4)))))"

text \<open>
  The two public calls. Each works on an engine object of its own: the ready set starts
  empty; the graph, the storage and the allocator's statics are the ones of the process.
\<close>

definition BatchedForward :: "Collaborators \<Rightarrow> nat \<Rightarrow> nat \<Rightarrow> Memoize \<Rightarrow> error + (NDArrayView \<times> Memoize)" where
  "BatchedForward K n f s =
     (case m_outputs (funs s f) of
        [] \<Rightarrow> Inl IndexOutOfRange
      | out0 # _ \<Rightarrow> GetValue K n out0 (s\<lparr>m_schedule := no_ready_ops, m_numBatchedLaunches := 0\<rparr>))"

definition BatchedBackward ::
  "Collaborators \<Rightarrow> nat \<Rightarrow> nat \<Rightarrow> (Variable \<times> NDArrayView option) list \<Rightarrow> Memoize \<Rightarrow>
   error + ((Variable \<times> NDArrayView option) list \<times> Memoize)" where
  "BatchedBackward K n f gradients s =
     (case m_outputs (funs s f) of
        [] \<Rightarrow> Inl IndexOutOfRange
      | out0 # _ \<Rightarrow> Backward K n out0 gradients (s\<lparr>m_schedule := no_ready_ops, m_numBatchedLaunches := 0\<rparr>))"

section \<open>Notions the properties are stated with\<close>

text \<open>
  Tensors handed out earlier: each was allocated before, and one that lives in the
  current block lies below the block's used mark.
\<close>

definition carved_before :: "NDArrayView list \<Rightarrow> Arena \<Rightarrow> bool" where
  "carved_before ts a =
     (\<forall>t\<in>set ts. nd_buffer t < next_id a \<and>
        (in_current_arena t a \<longrightarrow> nd_range t \<subseteq> {0..<m_currentArenaUsed a}))"

text \<open>
  No regular set holds two \<open>Times\<close> functions whose first inputs (the weight
  operands) are different variables.
\<close>

definition same_weight_buckets :: "(nat \<Rightarrow> Function) \<Rightarrow> nat list list \<Rightarrow> bool" where
  "same_weight_buckets fs bs =
     (\<forall>b\<in>set bs. \<forall>f\<in>set b. \<forall>g\<in>set b.
        m_op (fs f) = Times \<and> m_op (fs g) = Times \<and> m_inputs (fs f) \<noteq> [] \<and> m_inputs (fs g) \<noteq> []
        \<longrightarrow> m_dataFields (m_inputs (fs f) ! 0) = m_dataFields (m_inputs (fs g) ! 0))"

text \<open>
  Among the first \<open>k\<close> sets, set \<open>i\<close> is of maximum size and the earliest of that
  size.
\<close>

definition first_max :: "nat list list \<Rightarrow> nat \<Rightarrow> nat \<Rightarrow> bool" where
  "first_max bs i k =
     (i < k \<and> (\<forall>j<k. length (bs ! j) \<le> length (bs ! i)) \<and>
      (\<forall>j<i. length (bs ! j) < length (bs ! i)))"

text \<open>
  The regular sets \<open>bs'\<close> are \<open>bs\<close> with \<open>f\<close> appended to the first set whose
  front is batchable with \<open>f\<close>, or with the new set \<open>[f]\<close> at the end when no front
  is.
\<close>

definition joins_first_batchable ::
  "bool \<Rightarrow> (nat \<Rightarrow> VariableFields) \<Rightarrow> (nat \<Rightarrow> Function) \<Rightarrow> nat \<Rightarrow> nat list list \<Rightarrow> nat list list \<Rightarrow>
   bool" where
  "joins_first_batchable ndebug vs fs f bs bs' =
     ((\<exists>pre b post. bs = pre @ b # post \<and> b \<noteq> [] \<and>
          AreBatchable ndebug vs (fs f) (fs (hd b)) = Inr True \<and>
          (\<forall>c\<in>set pre. c \<noteq> [] \<and> AreBatchable ndebug vs (fs f) (fs (hd c)) = Inr False) \<and>
          bs' = pre @ (b @ [f]) # post) \<or>
      ((\<forall>c\<in>set bs. c \<noteq> [] \<and> AreBatchable ndebug vs (fs f) (fs (hd c)) = Inr False) \<and>
       bs' = bs @ [[f]]))"



text \<open>Every variable has in \<open>s'\<close> the value it has in \<open>s\<close>.\<close>

definition values_kept :: "Memoize \<Rightarrow> Memoize \<Rightarrow> bool" where
  "values_kept s s' = (\<forall>x. m_value (vars s' x) = m_value (vars s x))"

section \<open>A small graph to run the engine on\<close>

text \<open>
  Two weight matrices of the same shape (variables 10 and 11), a vector (variable 12), and
  the functions 20 = \<open>Times(W10, x)\<close>, 21 = \<open>Times(W11, x)\<close>, 22 = a \<open>NoOp\<close>
  and 23 = a \<open>Pass\<close> on the first product, and 24 = \<open>Times(W10, x)\<close> once more.
\<close>

definition variable_at :: "nat \<Rightarrow> Variable" where
  "variable_at d = \<lparr>m_dataFields = d, m_outputComposite = None\<rparr>"

definition example_fields :: "NDShape \<Rightarrow> VariableKind \<Rightarrow> nat option \<Rightarrow> VariableFields" where
  "example_fields sh k owner =
     \<lparr>m_shape = sh, m_varKind = k, m_dataType = 0, m_needsGradient = True, m_value = None,
      m_gradient = None, m_lazyIndex = (None, 0), m_consumers = ((None, 0), []),
      m_visited = False, m_ownerFunction = owner\<rparr>"

definition example_function :: "PrimitiveOpType \<Rightarrow> nat list \<Rightarrow> nat \<Rightarrow> Function" where
  "example_function op ins out =
     \<lparr>m_op = op, m_inputs = map variable_at ins, m_outputs = [variable_at out], m_attributes = Mapping.empty,
      m_pendingInputs = - 1\<rparr>"

definition example_vars :: "nat \<Rightarrow> VariableFields" where
  "example_vars =
     (\<lambda>_. example_fields [] Constant None)
       (10 := example_fields [3, 4] Parameter None,
        11 := example_fields [3, 4] Parameter None,
        12 := example_fields [4] Parameter None,
        13 := example_fields [3] Output (Some 20),
        14 := example_fields [3] Output (Some 21),
        15 := example_fields [3] Output (Some 22),
        16 := example_fields [3] Output (Some 23),
        17 := example_fields [3] Output (Some 24))"

definition example_funs :: "nat \<Rightarrow> Function" where
  "example_funs =
     (\<lambda>_. example_function (OtherOp 0) [] 18)
       (20 := example_function Times [10, 12] 13,
        21 := example_function Times [11, 12] 14,
        22 := example_function NoOp [13] 15,
        23 := example_function Pass [13] 16,
        24 := example_function Times [10, 12] 17)"

definition example_state :: Memoize where
  "example_state =
     \<lparr>vars = example_vars, funs = example_funs, mem = (\<lambda>_ _. 0), m_schedule = no_ready_ops,
      arena = initial_arena, next_var = 19, next_fun = 25, m_numBatchedLaunches = 0\<rparr>"

text \<open>
  The example graph after a batched execution: variable 13 is the slice of index 1 of the
  output (variable 18) of the batched function 25, which has a value and no gradient yet.
\<close>

definition example_tensor :: "nat \<Rightarrow> NDShape \<Rightarrow> NDArrayView" where
  "example_tensor b sh =
     \<lparr>nd_id = b, nd_buffer = b, nd_offset = 0, nd_shape = sh, nd_dataType = 0, nd_device = 0,
      nd_sparse = False\<rparr>"

definition example_lazy_state :: Memoize where
  "example_lazy_state =
     example_state
       \<lparr>vars := example_vars
          (13 := (example_fields [3] Output (Some 20))\<lparr>m_lazyIndex := (Some 25, 1)\<rparr>,
           18 := (example_fields [3, 2] Output (Some 25))
                   \<lparr>m_value := Some (example_tensor 100 [3, 2])\<rparr>),
        funs := example_funs(25 := example_function Times [10, 12] 18),
        arena := initial_arena\<lparr>next_id := 200\<rparr>\<rparr>"

text \<open>
  A graph with two functions in a chain: 45 applies an op to the parameter 40, which has
  a value, and gives variable 41; 46 applies an op to 41 and gives variable 42. Every
  function is idle and no variable has a consumer. The kernels of the example: the
  forward kernel returns the output buffer it is given (or a view of its first input),
  the backward kernel leaves the storage as it is; the build is one without
  \<open>NDEBUG\<close>.
\<close>

definition example_kernels :: Collaborators where
  "example_kernels =
     \<lparr>ComputeKnowableValue =
        (\<lambda>op ins attrs shape out ident m.
           (case out of
              Some t \<Rightarrow> (t, m)
            | None \<Rightarrow>
                ((case ins of
                    x # _ \<Rightarrow> x\<lparr>nd_id := ident, nd_shape := shape\<rparr>
                  | [] \<Rightarrow> example_tensor ident shape), m))),
      BackpropTo_kernel = (\<lambda>outputGradient i op attrs outputValue ins g beta m. m),
      InitValue = (\<lambda>d fields ident. None),
      NDEBUG = False\<rparr>"

definition example_root_state :: Memoize where
  "example_root_state =
     \<lparr>vars = (\<lambda>_. example_fields [] Constant None)
         (40 := (example_fields [2] Parameter None)\<lparr>m_value := Some (example_tensor 140 [2])\<rparr>,
          41 := example_fields [2] Output (Some 45),
          42 := example_fields [2] Output (Some 46)),
      funs = (\<lambda>_. example_function (OtherOp 0) [] 43)
         (45 := example_function (OtherOp 7) [40] 41,
          46 := example_function (OtherOp 8) [41] 42),
      mem = (\<lambda>_ _. 0), m_schedule = no_ready_ops,
      arena = initial_arena\<lparr>next_id := 200\<rparr>,
      next_var = 50, next_fun = 50, m_numBatchedLaunches = 0\<rparr>"


text \<open>
  Two \<open>Splice\<close> functions over the vector 12, with the same axis attribute: 30 splices
  two copies of it and 31 three.
\<close>

definition example_splice :: "nat list \<Rightarrow> nat \<Rightarrow> Function" where
  "example_splice ins out =
     (example_function Splice ins out)
       \<lparr>m_attributes := Mapping.update ''axis'' (AxisValue 1) Mapping.empty\<rparr>"

definition example_splices :: "nat \<Rightarrow> Function" where
  "example_splices =
     example_funs
       (30 := example_splice [12, 12] 32,
        31 := example_splice [12, 12, 12] 33)"

text \<open>
  A graph with the two \<open>Splice\<close> functions: the vector 12 has a value, and the
  functions 34 and 36 each take the outputs of both, 34 that of function 31 first and 36
  that of function 30 first.
\<close>

definition example_splice_state :: Memoize where
  "example_splice_state =
     \<lparr>vars = example_vars
         (12 := (example_fields [4] Parameter None)\<lparr>m_value := Some (example_tensor 112 [4])\<rparr>,
          32 := example_fields [4, 2] Output (Some 30),
          33 := example_fields [4, 3] Output (Some 31),
          35 := example_fields [4] Output (Some 34),
          37 := example_fields [4] Output (Some 36)),
      funs = example_splices
         (34 := example_function (OtherOp 9) [33, 32] 35,
          36 := example_function (OtherOp 9) [32, 33] 37),
      mem = (\<lambda>_ _. 0), m_schedule = no_ready_ops,
      arena = initial_arena\<lparr>next_id := 200\<rparr>,
      next_var = 50, next_fun = 50, m_numBatchedLaunches = 0\<rparr>"

section \<open>The arena allocator\<close>

lemma Allocate_large:
  assumes "TotalSize shape > ARENASIZE"
  shows "AllocateTensorInArena shape dt dev a =
     (\<lparr>nd_id = next_id a, nd_buffer = next_id a, nd_offset = 0, nd_shape = shape,
       nd_dataType = dt, nd_device = dev, nd_sparse = False\<rparr>, a\<lparr>next_id := next_id a + 1\<rparr>)"
  using assms by (simp add: AllocateTensorInArena_def make_NDArrayView_def)

lemma Allocate_fresh:
  assumes "TotalSize shape \<le> ARENASIZE"
    and "m_currentArena a = None \<or> TotalSize shape > ARENASIZE - m_currentArenaUsed a"
  shows "AllocateTensorInArena shape dt dev a =
     (\<lparr>nd_id = next_id a + 2, nd_buffer = next_id a, nd_offset = 0, nd_shape = shape,
       nd_dataType = dt, nd_device = dev, nd_sparse = False\<rparr>,
      \<lparr>m_currentArena = Some \<lparr>nd_id = next_id a, nd_buffer = next_id a, nd_offset = 0, nd_shape = [ARENASIZE],
       nd_dataType = dt, nd_device = dev, nd_sparse = False\<rparr>,
       m_currentArenaUsed = TotalSize shape, next_id = next_id a + 3\<rparr>)"
  using assms
  by (cases "m_currentArena a")
     (auto simp add: AllocateTensorInArena_def make_NDArrayView_def SliceView_def AsShape_def Let_def)

lemma Allocate_carve:
  assumes "TotalSize shape \<le> ARENASIZE"
    and "m_currentArena a = Some blk" and "TotalSize shape \<le> ARENASIZE - m_currentArenaUsed a"
  shows "AllocateTensorInArena shape dt dev a =
     (blk\<lparr>nd_id := next_id a + 1, nd_offset := nd_offset blk + m_currentArenaUsed a, nd_shape := shape\<rparr>,
      a\<lparr>m_currentArenaUsed := m_currentArenaUsed a + TotalSize shape, next_id := next_id a + 2\<rparr>)"
  using assms
  by (auto simp add: AllocateTensorInArena_def make_NDArrayView_def SliceView_def AsShape_def Let_def)

lemma Allocate_cases:
  obtains (large) "TotalSize shape > ARENASIZE"
  | (fresh) "TotalSize shape \<le> ARENASIZE"
      "m_currentArena a = None \<or> TotalSize shape > ARENASIZE - m_currentArenaUsed a"
  | (carve) blk where "TotalSize shape \<le> ARENASIZE" "m_currentArena a = Some blk"
      "TotalSize shape \<le> ARENASIZE - m_currentArenaUsed a"
  by (cases "m_currentArena a") fastforce+

lemma Allocate_arena_ok:
  assumes "arena_ok a" and "AllocateTensorInArena shape dt dev a = (t, a')"
  shows "arena_ok a'"
proof (cases rule: Allocate_cases[where shape=shape and a=a])
  case large
  with assms show ?thesis
    by (auto simp add: Allocate_large arena_ok_def split: option.splits)
next
  case fresh
  with assms(2) show ?thesis
    by (auto simp add: Allocate_fresh[OF fresh] arena_ok_def)
next
  case (carve blk)
  with assms show ?thesis
    by (auto simp add: Allocate_carve[OF carve] arena_ok_def)
qed

lemma Allocate_shape:
  assumes "AllocateTensorInArena shape dt dev a = (t, a')"
  shows "nd_shape t = shape"
proof (cases rule: Allocate_cases[where shape=shape and a=a])
  case large
  with assms show ?thesis by (auto simp add: Allocate_large)
next
  case fresh
  with assms show ?thesis by (auto simp add: Allocate_fresh[OF fresh])
next
  case (carve blk)
  with assms show ?thesis by (auto simp add: Allocate_carve[OF carve])
qed

lemma Allocate_standalone_iff:
  assumes "arena_ok a" and "AllocateTensorInArena shape dt dev a = (t, a')"
  shows "in_current_arena t a' = (TotalSize shape \<le> ARENASIZE)"
proof (cases rule: Allocate_cases[where shape=shape and a=a])
  case large
  with assms show ?thesis
    by (auto simp add: Allocate_large arena_ok_def in_current_arena_def split: option.splits)
next
  case fresh
  with assms(2) show ?thesis
    by (auto simp add: Allocate_fresh[OF fresh] in_current_arena_def)
next
  case (carve blk)
  with assms show ?thesis
    by (auto simp add: Allocate_carve[OF carve] in_current_arena_def)
qed

lemma Allocate_disjoint:
  assumes ok: "arena_ok a" and al: "AllocateTensorInArena shape dt dev a = (t, a')"
    and cb: "carved_before ts a"
  shows "carved_before (t # ts) a' \<and> (\<forall>u\<in>set ts. nd_buffer u = nd_buffer t \<longrightarrow> nd_range u \<inter> nd_range t = {})"
proof (cases rule: Allocate_cases[where shape=shape and a=a])
  case large
  from al have t: "t = \<lparr>nd_id = next_id a, nd_buffer = next_id a, nd_offset = 0, nd_shape = shape,
       nd_dataType = dt, nd_device = dev, nd_sparse = False\<rparr>" and a': "a' = a\<lparr>next_id := next_id a + 1\<rparr>"
    by (simp_all add: Allocate_large[OF large])
  have fresh: "\<forall>u\<in>set ts. nd_buffer u \<noteq> nd_buffer t" using cb by (auto simp add: carved_before_def t)
  have "\<not> in_current_arena t a'" using ok
    by (auto simp add: t a' in_current_arena_def arena_ok_def split: option.splits)
  moreover have "\<forall>u\<in>set ts. in_current_arena u a' = in_current_arena u a"
    by (simp add: a' in_current_arena_def)
  ultimately have "carved_before (t # ts) a'"
    using cb by (auto simp add: carved_before_def t a')
  with fresh show ?thesis by blast
next
  case fresh
  from al have t: "t = \<lparr>nd_id = next_id a + 2, nd_buffer = next_id a, nd_offset = 0, nd_shape = shape,
       nd_dataType = dt, nd_device = dev, nd_sparse = False\<rparr>"
    and a': "a' = \<lparr>m_currentArena = Some \<lparr>nd_id = next_id a, nd_buffer = next_id a, nd_offset = 0, nd_shape = [ARENASIZE],
       nd_dataType = dt, nd_device = dev, nd_sparse = False\<rparr>,
       m_currentArenaUsed = TotalSize shape, next_id = next_id a + 3\<rparr>"
    by (simp_all add: Allocate_fresh[OF fresh])
  have new: "\<forall>u\<in>set ts. nd_buffer u \<noteq> nd_buffer t" using cb by (auto simp add: carved_before_def t)
  then have "\<forall>u\<in>set ts. \<not> in_current_arena u a'"
    by (simp add: a' t in_current_arena_def)
  moreover have "nd_range t \<subseteq> {0..<m_currentArenaUsed a'}" by (simp add: t a' nd_range_def)
  ultimately have "carved_before (t # ts) a'"
    using cb by (auto simp add: carved_before_def t a')
  with new show ?thesis by blast
next
  case (carve blk)
  from al have t: "t = blk\<lparr>nd_id := next_id a + 1, nd_offset := nd_offset blk + m_currentArenaUsed a, nd_shape := shape\<rparr>"
    and a': "a' = a\<lparr>m_currentArenaUsed := m_currentArenaUsed a + TotalSize shape, next_id := next_id a + 2\<rparr>"
    by (simp_all add: Allocate_carve[OF carve])
  have off: "nd_offset blk = 0" and bb: "nd_buffer blk < next_id a"
    using ok carve(2) by (simp_all add: arena_ok_def)
  have rt: "nd_range t = {m_currentArenaUsed a ..< m_currentArenaUsed a + TotalSize shape}"
    by (simp add: t off nd_range_def)
  have same: "\<forall>u\<in>set ts. in_current_arena u a' = in_current_arena u a"
    by (simp add: a' in_current_arena_def)
  have dis: "\<forall>u\<in>set ts. nd_buffer u = nd_buffer t \<longrightarrow> nd_range u \<inter> nd_range t = {}"
  proof (intro ballI impI)
    fix u assume u: "u \<in> set ts" and eq: "nd_buffer u = nd_buffer t"
    then have "in_current_arena u a" using carve(2) by (simp add: in_current_arena_def t)
    with cb u have "nd_range u \<subseteq> {0..<m_currentArenaUsed a}" by (simp add: carved_before_def)
    then show "nd_range u \<inter> nd_range t = {}" unfolding rt by auto
  qed
  have "carved_before (t # ts) a'"
    unfolding carved_before_def
  proof (intro ballI conjI impI)
    fix u assume u: "u \<in> set (t # ts)"
    show "nd_buffer u < next_id a'"
      using u cb bb by (auto simp add: carved_before_def t a')
    assume ic: "in_current_arena u a'"
    show "nd_range u \<subseteq> {0..<m_currentArenaUsed a'}"
    proof (cases "u = t")
      case True
      then show ?thesis by (simp add: rt a')
    next
      case False
      with u have uts: "u \<in> set ts" by simp
      with ic same have "in_current_arena u a" by simp
      with cb uts have "nd_range u \<subseteq> {0..<m_currentArenaUsed a}" by (simp add: carved_before_def)
      then show ?thesis by (auto simp add: a')
    qed
  qed
  with dis show ?thesis by blast
qed


text \<open>
  C7 (as the code has it). The threshold and the block size are \<open>ARENASIZE\<close>, which
  is 64000000 elements. A request above it gets a tensor on storage of its own and leaves
  the arena as it is; a request of at most that size always comes from the current block:
  when there is no block, or the request does not fit in the rest of it, a fresh block of
  \<open>ARENASIZE\<close> elements replaces the current one and the request is carved at offset 0;
  otherwise it is carved at the used mark. Either way the used mark ends right behind the
  carved range, and the new tensor overlaps no tensor handed out earlier.
\<close>

theorem AllocateTensorInArena_policy:
  assumes "arena_ok a" and "AllocateTensorInArena shape dt dev a = (t, a')"
    and "carved_before ts a"
  shows "ARENASIZE = 64000000 \<and> arena_ok a' \<and> nd_shape t = shape \<and>
     in_current_arena t a' = (TotalSize shape \<le> ARENASIZE) \<and>
     (TotalSize shape > ARENASIZE \<longrightarrow>
        nd_buffer t = next_id a \<and> nd_offset t = 0 \<and>
        m_currentArena a' = m_currentArena a \<and> m_currentArenaUsed a' = m_currentArenaUsed a) \<and>
     (TotalSize shape \<le> ARENASIZE \<and>
      (m_currentArena a = None \<or> TotalSize shape > ARENASIZE - m_currentArenaUsed a) \<longrightarrow>
        (\<exists>blk. m_currentArena a' = Some blk \<and> nd_buffer blk = next_id a \<and>
               nd_offset blk = 0 \<and> nd_shape blk = [ARENASIZE]) \<and>
        nd_offset t = 0 \<and> m_currentArenaUsed a' = TotalSize shape) \<and>
     (TotalSize shape \<le> ARENASIZE \<and> m_currentArena a \<noteq> None \<and>
      TotalSize shape \<le> ARENASIZE - m_currentArenaUsed a \<longrightarrow>
        m_currentArena a' = m_currentArena a \<and> nd_offset t = m_currentArenaUsed a \<and>
        m_currentArenaUsed a' = m_currentArenaUsed a + TotalSize shape) \<and>
     carved_before (t # ts) a' \<and>
     (\<forall>u\<in>set ts. nd_buffer u = nd_buffer t \<longrightarrow> nd_range u \<inter> nd_range t = {})"
proof -
  have c1: "ARENASIZE = 64000000" by (simp add: ARENASIZE_def)
  have c2: "arena_ok a'" by (rule Allocate_arena_ok[OF assms(1,2)])
  have c3: "nd_shape t = shape" by (rule Allocate_shape[OF assms(2)])
  have c4: "in_current_arena t a' = (TotalSize shape \<le> ARENASIZE)"
    by (rule Allocate_standalone_iff[OF assms(1,2)])
  have c5: "TotalSize shape > ARENASIZE \<longrightarrow>
        nd_buffer t = next_id a \<and> nd_offset t = 0 \<and>
        m_currentArena a' = m_currentArena a \<and> m_currentArenaUsed a' = m_currentArenaUsed a"
    using assms(2) by (auto simp add: Allocate_large)
  have c6: "TotalSize shape \<le> ARENASIZE \<and>
      (m_currentArena a = None \<or> TotalSize shape > ARENASIZE - m_currentArenaUsed a) \<longrightarrow>
        (\<exists>blk. m_currentArena a' = Some blk \<and> nd_buffer blk = next_id a \<and>
               nd_offset blk = 0 \<and> nd_shape blk = [ARENASIZE]) \<and>
        nd_offset t = 0 \<and> m_currentArenaUsed a' = TotalSize shape"
  proof
    assume h: "TotalSize shape \<le> ARENASIZE \<and>
      (m_currentArena a = None \<or> TotalSize shape > ARENASIZE - m_currentArenaUsed a)"
    then have h1: "TotalSize shape \<le> ARENASIZE"
      and h2: "m_currentArena a = None \<or> TotalSize shape > ARENASIZE - m_currentArenaUsed a"
      by blast+
    from assms(2) show "(\<exists>blk. m_currentArena a' = Some blk \<and> nd_buffer blk = next_id a \<and>
               nd_offset blk = 0 \<and> nd_shape blk = [ARENASIZE]) \<and>
        nd_offset t = 0 \<and> m_currentArenaUsed a' = TotalSize shape"
      unfolding Allocate_fresh[OF h1 h2] by auto
  qed
  have c7: "TotalSize shape \<le> ARENASIZE \<and> m_currentArena a \<noteq> None \<and>
      TotalSize shape \<le> ARENASIZE - m_currentArenaUsed a \<longrightarrow>
        m_currentArena a' = m_currentArena a \<and> nd_offset t = m_currentArenaUsed a \<and>
        m_currentArenaUsed a' = m_currentArenaUsed a + TotalSize shape"
  proof
    assume h: "TotalSize shape \<le> ARENASIZE \<and> m_currentArena a \<noteq> None \<and>
      TotalSize shape \<le> ARENASIZE - m_currentArenaUsed a"
    then obtain blk where blk: "m_currentArena a = Some blk" by auto
    from h have h1: "TotalSize shape \<le> ARENASIZE"
      and h3: "TotalSize shape \<le> ARENASIZE - m_currentArenaUsed a" by blast+
    have "nd_offset blk = 0" using assms(1) blk by (simp add: arena_ok_def)
    with assms(2) show "m_currentArena a' = m_currentArena a \<and> nd_offset t = m_currentArenaUsed a \<and>
        m_currentArenaUsed a' = m_currentArenaUsed a + TotalSize shape"
      unfolding Allocate_carve[OF h1 blk h3] by auto
  qed
  note c8 = Allocate_disjoint[OF assms]
  from c1 c2 c3 c4 c5 c6 c7 c8 show ?thesis by blast
qed

text \<open>
  The theorem at work: \<open>[2, 3]\<close> is allocated in a fresh process, then \<open>[4]\<close>. The
  second tensor is carved from the same block, right behind the first.
\<close>

theorem AllocateTensorInArena_policy_witness:
  "arena_ok (snd (AllocateTensorInArena [2, 3] 0 0 initial_arena)) \<and>
   carved_before [fst (AllocateTensorInArena [2, 3] 0 0 initial_arena)]
     (snd (AllocateTensorInArena [2, 3] 0 0 initial_arena)) \<and>
   nd_buffer (fst (AllocateTensorInArena [4] 0 0 (snd (AllocateTensorInArena [2, 3] 0 0 initial_arena)))) =
     nd_buffer (fst (AllocateTensorInArena [2, 3] 0 0 initial_arena)) \<and>
   nd_offset (fst (AllocateTensorInArena [4] 0 0 (snd (AllocateTensorInArena [2, 3] 0 0 initial_arena)))) = 6 \<and>
   m_currentArenaUsed (snd (AllocateTensorInArena [4] 0 0 (snd (AllocateTensorInArena [2, 3] 0 0 initial_arena)))) = 10 \<and>
   nd_range (fst (AllocateTensorInArena [2, 3] 0 0 initial_arena)) \<inter>
     nd_range (fst (AllocateTensorInArena [4] 0 0 (snd (AllocateTensorInArena [2, 3] 0 0 initial_arena)))) = {}"
proof -
  have e1: "AllocateTensorInArena [2, 3] 0 0 initial_arena =
     (\<lparr>nd_id = 2, nd_buffer = 0, nd_offset = 0, nd_shape = [2, 3],
       nd_dataType = 0, nd_device = 0, nd_sparse = False\<rparr>,
      \<lparr>m_currentArena = Some \<lparr>nd_id = 0, nd_buffer = 0, nd_offset = 0, nd_shape = [64000000],
       nd_dataType = 0, nd_device = 0, nd_sparse = False\<rparr>,
       m_currentArenaUsed = 6, next_id = 3\<rparr>)"
    by (simp add: AllocateTensorInArena_def make_NDArrayView_def SliceView_def AsShape_def
          TotalSize_def ARENASIZE_def initial_arena_def Let_def)
  have ok0: "arena_ok initial_arena" by (simp add: arena_ok_def initial_arena_def)
  have cb0: "carved_before [] initial_arena" by (simp add: carved_before_def)
  have p1: "AllocateTensorInArena [2, 3] 0 0 initial_arena =
      (fst (AllocateTensorInArena [2, 3] 0 0 initial_arena), snd (AllocateTensorInArena [2, 3] 0 0 initial_arena))"
    by simp
  note r1 = AllocateTensorInArena_policy[OF ok0 p1 cb0]
  then have ok1: "arena_ok (snd (AllocateTensorInArena [2, 3] 0 0 initial_arena))"
    and cb1: "carved_before [fst (AllocateTensorInArena [2, 3] 0 0 initial_arena)]
        (snd (AllocateTensorInArena [2, 3] 0 0 initial_arena))"
    by blast+
  have p2: "AllocateTensorInArena [4] 0 0 (snd (AllocateTensorInArena [2, 3] 0 0 initial_arena)) =
      (fst (AllocateTensorInArena [4] 0 0 (snd (AllocateTensorInArena [2, 3] 0 0 initial_arena))),
       snd (AllocateTensorInArena [4] 0 0 (snd (AllocateTensorInArena [2, 3] 0 0 initial_arena))))"
    by simp
  note r2 = AllocateTensorInArena_policy[OF ok1 p2 cb1]
  have e2: "AllocateTensorInArena [4] 0 0 (snd (AllocateTensorInArena [2, 3] 0 0 initial_arena)) =
     (\<lparr>nd_id = 4, nd_buffer = 0, nd_offset = 6, nd_shape = [4],
       nd_dataType = 0, nd_device = 0, nd_sparse = False\<rparr>,
      \<lparr>m_currentArena = Some \<lparr>nd_id = 0, nd_buffer = 0, nd_offset = 0, nd_shape = [64000000],
       nd_dataType = 0, nd_device = 0, nd_sparse = False\<rparr>,
       m_currentArenaUsed = 10, next_id = 5\<rparr>)"
    unfolding e1
    by (simp add: AllocateTensorInArena_def make_NDArrayView_def SliceView_def AsShape_def
          TotalSize_def ARENASIZE_def Let_def)
  have b: "nd_buffer (fst (AllocateTensorInArena [4] 0 0 (snd (AllocateTensorInArena [2, 3] 0 0 initial_arena)))) =
     nd_buffer (fst (AllocateTensorInArena [2, 3] 0 0 initial_arena))"
    unfolding e2 unfolding e1 by simp
  from r2 b have d: "nd_range (fst (AllocateTensorInArena [2, 3] 0 0 initial_arena)) \<inter>
     nd_range (fst (AllocateTensorInArena [4] 0 0 (snd (AllocateTensorInArena [2, 3] 0 0 initial_arena)))) = {}"
    by simp
  have o: "nd_offset (fst (AllocateTensorInArena [4] 0 0 (snd (AllocateTensorInArena [2, 3] 0 0 initial_arena)))) = 6"
    and u: "m_currentArenaUsed (snd (AllocateTensorInArena [4] 0 0 (snd (AllocateTensorInArena [2, 3] 0 0 initial_arena)))) = 10"
    unfolding e2 by simp_all
  from ok1 cb1 b o u d show ?thesis by blast
qed

text \<open>
  C7 as the claim words it, with a threshold of 64 Mi (\<open>64 * 2 ^ 20\<close>) elements, fails:
  65000000 elements do not exceed 64 Mi, and the allocator still returns a tensor on
  storage of its own and starts no block.
\<close>

theorem AllocateTensorInArena_64Mi_counterexample:
  "TotalSize [65000000] \<le> 64 * 2 ^ 20 \<and>
   \<not> in_current_arena (fst (AllocateTensorInArena [65000000] 0 0 initial_arena))
        (snd (AllocateTensorInArena [65000000] 0 0 initial_arena)) \<and>
   m_currentArena (snd (AllocateTensorInArena [65000000] 0 0 initial_arena)) = None"
proof -
  have big: "TotalSize [65000000] > ARENASIZE" by (simp add: TotalSize_def ARENASIZE_def)
  show ?thesis
    unfolding Allocate_large[OF big]
    by (simp add: TotalSize_def in_current_arena_def initial_arena_def)
qed

section \<open>The intrusive lists of the ready set\<close>

lemma linked_upd_other:
  "a \<notin> set xs \<Longrightarrow> linked (link(a := v)) h xs = linked link h xs"
  by (induction xs arbitrary: h) auto

lemma linked_snoc:
  assumes "linked link h xs" and "distinct (xs @ [f])" and "xs \<noteq> []"
  shows "linked ((link(last xs := Some f))(f := None)) h (xs @ [f])"
  using assms
proof (induction xs arbitrary: h)
  case Nil
  then show ?case by simp
next
  case (Cons x xs)
  show ?case
  proof (cases "xs = []")
    case True
    with Cons.prems show ?thesis by auto
  next
    case False
    from Cons.prems have l: "linked link (link x) xs" and hx: "h = Some x"
      and d: "distinct (xs @ [f])" and xn: "x \<notin> set xs" "x \<noteq> f"
      by auto
    from Cons.IH[OF l d False]
    have ih: "linked ((link(last xs := Some f))(f := None)) (link x) (xs @ [f])" .
    have lx: "last xs \<noteq> x" using False xn(1) last_in_set by metis
    let ?L = "(link(last xs := Some f))(f := None)"
    have e: "?L x = link x" using lx xn(2) by simp
    have la: "last (x # xs) = last xs" using False by simp
    have main: "linked ?L h (x # (xs @ [f]))"
      unfolding linked.simps e using hx ih by blast
    show ?thesis by (simp only: la append_Cons main)
  qed
qed

lemma push_back_appends:
  assumes "stands_for l link xs" and "f \<notin> set xs"
    and "push_back f l link = (l', link')"
  shows "stands_for l' link' (xs @ [f])"
    and "\<And>h ys. f \<notin> set ys \<Longrightarrow> set xs \<inter> set ys = {} \<Longrightarrow> linked link' h ys = linked link h ys"
proof -
  have d: "distinct (xs @ [f])" using assms(1,2) by (simp add: stands_for_def)
  show "stands_for l' link' (xs @ [f])"
  proof (cases "xs = []")
    case True
    with assms(1) have "list_head l = None" and "list_count l = 0" by (simp_all add: stands_for_def)
    with assms(3) True show ?thesis
      by (auto simp add: push_back_def stands_for_def Let_def)
  next
    case False
    with assms(1) have h: "list_head l \<noteq> None" and t: "list_tail l = last xs"
      and c: "list_count l = length xs" and lk: "linked link (list_head l) xs"
      by (cases xs; simp add: stands_for_def)+
    from assms(3) h t have l': "l' = \<lparr>list_head = list_head l, list_count = list_count l + 1, list_tail = f\<rparr>"
      and link': "link' = (link(last xs := Some f))(f := None)"
      by (auto simp add: push_back_def Let_def)
    from linked_snoc[OF lk d False] show ?thesis
      unfolding stands_for_def l' link' using c d by simp
  qed
  fix h ys
  assume fy: "f \<notin> set ys" and dis: "set xs \<inter> set ys = {}"
  show "linked link' h ys = linked link h ys"
  proof (cases "xs = []")
    case True
    with assms(1) have "list_head l = None" by (simp add: stands_for_def)
    with assms(3) have "link' = link(f := None)" by (auto simp add: push_back_def Let_def)
    with fy show ?thesis by (simp add: linked_upd_other)
  next
    case False
    with assms(1) have h: "list_head l \<noteq> None" and t: "list_tail l = last xs"
      by (cases xs; simp add: stands_for_def)+
    from assms(3) h t have link': "link' = (link(last xs := Some f))(f := None)"
      by (auto simp add: push_back_def Let_def)
    have "last xs \<in> set xs" using False by simp
    with dis have "last xs \<notin> set ys" by blast
    with fy show ?thesis unfolding link' by (simp add: linked_upd_other)
  qed
qed

lemma list_of_one_stands_for:
  "list_of_one f link = (l, link') \<Longrightarrow> stands_for l link' [f]"
  by (auto simp add: list_of_one_def stands_for_def)

lemma list_clear_stands_for: "stands_for list_clear link []"
  by (simp add: list_clear_def stands_for_def)

lemma stands_for_empty: "stands_for l link xs \<Longrightarrow> (list_head l = None) = (xs = [])"
  by (cases xs) (simp_all add: stands_for_def)

section \<open>The ready set\<close>

lemma list_all_upt: "list_all P [0..<n] = (\<forall>i<n. P i)"
  by (auto simp add: list_all_iff)

lemma AreBatchable_inputs_True:
  "(AreBatchable_inputs vs a b ps = Inr True) =
     list_all (\<lambda>i. i < length (m_inputs b) \<and> inputs_match vs a b i) ps"
  by (induction ps) simp_all


lemma AreBatchable_True_unfold:
  "(AreBatchable nd vs a b = Inr True) =
     (\<not> (IsViewOp (m_op a) \<and> m_op a \<noteq> BarrierOp) \<and> m_op a = m_op b \<and>
      (nd \<or> length (m_inputs a) = length (m_inputs b)) \<and>
      AreBatchable_inputs vs a b [0..<length (m_inputs a)] = Inr True \<and>
      m_attributes a = m_attributes b)"
  by (auto simp add: AreBatchable_def Let_def split: sum.splits bool.splits)

lemma inputs_match_all:
  "(AreBatchable_inputs vs a b [0..<n] = Inr True) =
      (\<forall>i<n. i < length (m_inputs b) \<and>
          (if m_op a = Times \<and> i = 0
           then m_dataFields (m_inputs a ! i) = m_dataFields (m_inputs b ! i)
           else Shape vs (m_inputs a ! i) = Shape vs (m_inputs b ! i)))"
  by (simp only: AreBatchable_inputs_True list_all_upt inputs_match_def Let_def)

text \<open>
  What \<open>AreBatchable\<close> decides on two functions of the same op that is not a view op.
  The number of inputs of \<open>b\<close> enters only as a bound: in a build with \<open>NDEBUG\<close>
  a function \<open>b\<close> with more inputs than \<open>a\<close> is batchable with \<open>a\<close> when the
  inputs of \<open>a\<close> match the first inputs of \<open>b\<close>.
\<close>

lemma AreBatchable_True_iff:
  assumes "m_op a = m_op b" "\<not> IsViewOp (m_op a)"
  shows "(AreBatchable nd vs a b = Inr True) =
     ((nd \<or> length (m_inputs a) = length (m_inputs b)) \<and>
      length (m_inputs a) \<le> length (m_inputs b) \<and>
      (\<forall>i<length (m_inputs a).
          if m_op a = Times \<and> i = 0
          then m_dataFields (m_inputs a ! i) = m_dataFields (m_inputs b ! i)
          else Shape vs (m_inputs a ! i) = Shape vs (m_inputs b ! i)) \<and>
      m_attributes a = m_attributes b)"
proof -
  have "(\<forall>i<length (m_inputs a). i < length (m_inputs b) \<and>
          (if m_op a = Times \<and> i = 0
           then m_dataFields (m_inputs a ! i) = m_dataFields (m_inputs b ! i)
           else Shape vs (m_inputs a ! i) = Shape vs (m_inputs b ! i))) =
        (length (m_inputs a) \<le> length (m_inputs b) \<and>
         (\<forall>i<length (m_inputs a).
          if m_op a = Times \<and> i = 0
          then m_dataFields (m_inputs a ! i) = m_dataFields (m_inputs b ! i)
          else Shape vs (m_inputs a ! i) = Shape vs (m_inputs b ! i)))"
    (is "?L = (?B \<and> ?R)")
  proof
    assume l: ?L
    have ?B
    proof (rule ccontr)
      assume "\<not> ?B"
      then have "length (m_inputs b) < length (m_inputs a)" by simp
      with l have "length (m_inputs b) < length (m_inputs b)" by blast
      then show False by simp
    qed
    with l show "?B \<and> ?R" by blast
  next
    assume r: "?B \<and> ?R"
    show ?L
    proof (intro allI impI conjI)
      fix i assume i: "i < length (m_inputs a)"
      with r show "i < length (m_inputs b)" by simp
      from r i show "if m_op a = Times \<and> i = 0
          then m_dataFields (m_inputs a ! i) = m_dataFields (m_inputs b ! i)
          else Shape vs (m_inputs a ! i) = Shape vs (m_inputs b ! i)" by blast
    qed
  qed
  then show ?thesis
    unfolding AreBatchable_True_unfold inputs_match_all using assms by simp
qed

text \<open>
  On functions with the same number of inputs the two builds agree, and the predicate is
  the conjunction of the comparisons of the loop and of the attributes.
\<close>

lemma AreBatchable_same_arity:
  assumes "m_op a = m_op b" "\<not> IsViewOp (m_op a)" "length (m_inputs a) = length (m_inputs b)"
  shows "(AreBatchable nd vs a b = Inr True) =
     ((\<forall>i<length (m_inputs a).
          if m_op a = Times \<and> i = 0
          then m_dataFields (m_inputs a ! i) = m_dataFields (m_inputs b ! i)
          else Shape vs (m_inputs a ! i) = Shape vs (m_inputs b ! i)) \<and>
      m_attributes a = m_attributes b)"
  unfolding AreBatchable_True_iff[OF assms(1,2)] using assms(3) by simp

lemma AreBatchable_asserts_arity:
  assumes "m_op a = m_op b" "\<not> IsViewOp (m_op a)" "length (m_inputs a) \<noteq> length (m_inputs b)"
  shows "AreBatchable False vs a b = Inl AssertionFailed"
  using assms by (simp add: AreBatchable_def Let_def)

lemma AreBatchable_True_D:
  assumes "AreBatchable nd vs a b = Inr True"
  shows "m_op a = m_op b" and "length (m_inputs a) \<le> length (m_inputs b)"
    and "m_op a = Times \<Longrightarrow> m_inputs a \<noteq> [] \<Longrightarrow> m_dataFields (m_inputs a ! 0) = m_dataFields (m_inputs b ! 0)"
proof -
  from assms have u: "m_op a = m_op b"
    "AreBatchable_inputs vs a b [0..<length (m_inputs a)] = Inr True"
    unfolding AreBatchable_True_unfold by blast+
  note m = u(2)[unfolded inputs_match_all]
  show "m_op a = m_op b" by (rule u)
  show "length (m_inputs a) \<le> length (m_inputs b)"
  proof (rule ccontr)
    assume "\<not> length (m_inputs a) \<le> length (m_inputs b)"
    then have "length (m_inputs b) < length (m_inputs a)" by simp
    with m have "length (m_inputs b) < length (m_inputs b)" by blast
    then show False by simp
  qed
  show "m_dataFields (m_inputs a ! 0) = m_dataFields (m_inputs b ! 0)"
    if "m_op a = Times" "m_inputs a \<noteq> []"
  proof -
    from that(2) have "0 < length (m_inputs a)" by simp
    with m that(1) show ?thesis by auto
  qed
qed

lemma same_weight_bucketsD:
  assumes "same_weight_buckets fs bs" "b \<in> set bs" "f \<in> set b" "g \<in> set b"
    "m_op (fs f) = Times" "m_op (fs g) = Times" "m_inputs (fs f) \<noteq> []" "m_inputs (fs g) \<noteq> []"
  shows "m_dataFields (m_inputs (fs f) ! 0) = m_dataFields (m_inputs (fs g) ! 0)"
  using assms unfolding same_weight_buckets_def by blast

lemma same_weight_buckets_Cons:
  "same_weight_buckets fs (b # bs) = (same_weight_buckets fs [b] \<and> same_weight_buckets fs bs)"
  unfolding same_weight_buckets_def by auto

lemma same_weight_buckets_snoc:
  assumes old: "same_weight_buckets fs [b]"
    and head: "\<And>h. h \<in> set b \<Longrightarrow> m_op (fs h) = Times \<Longrightarrow> m_inputs (fs h) \<noteq> [] \<Longrightarrow>
            m_op (fs f) = Times \<Longrightarrow> m_inputs (fs f) \<noteq> [] \<Longrightarrow>
            m_dataFields (m_inputs (fs h) ! 0) = m_dataFields (m_inputs (fs f) ! 0)"
  shows "same_weight_buckets fs [b @ [f]]"
  unfolding same_weight_buckets_def
proof (intro ballI impI)
  fix c x y
  assume c: "c \<in> set [b @ [f]]" and x: "x \<in> set c" and y: "y \<in> set c"
    and t: "m_op (fs x) = Times \<and> m_op (fs y) = Times \<and> m_inputs (fs x) \<noteq> [] \<and> m_inputs (fs y) \<noteq> []"
  from c have ceq: "c = b @ [f]" by simp
  from x y ceq consider "x \<in> set b" "y \<in> set b" | "x \<in> set b" "y = f" | "x = f" "y \<in> set b" | "x = f" "y = f"
    by auto
  then show "m_dataFields (m_inputs (fs x) ! 0) = m_dataFields (m_inputs (fs y) ! 0)"
  proof cases
    case 1
    have "b \<in> set [b]" by simp
    from same_weight_bucketsD[OF old this 1] t show ?thesis by blast
  next
    case 2
    with head[of x] t show ?thesis by blast
  next
    case 3
    with head[of y] t show ?thesis by metis
  next
    case 4
    then show ?thesis by simp
  qed
qed

lemma Schedule_scan_same_weight:
  assumes "Schedule_scan nd vs fs f bs = Inr bs'" and "same_weight_buckets fs bs"
  shows "same_weight_buckets fs bs'"
  using assms
proof (induction bs arbitrary: bs')
  case Nil
  then show ?case by (auto simp: same_weight_buckets_def)
next
  case (Cons b bs)
  from Cons.prems(2) have old1: "same_weight_buckets fs [b]" and old2: "same_weight_buckets fs bs"
    using same_weight_buckets_Cons[of fs b bs] by blast+
  show ?case
  proof (cases b)
    case Nil
    with Cons.prems show ?thesis by simp
  next
    case (Cons g gs)
    note b = this
    show ?thesis
    proof (cases "AreBatchable nd vs (fs f) (fs g)")
      case (Inl e)
      with Cons.prems b show ?thesis by simp
    next
      case (Inr t)
      show ?thesis
      proof (cases t)
        case True
        with Inr have ab: "AreBatchable nd vs (fs f) (fs g) = Inr True" by simp
        with Cons.prems b have bs': "bs' = (b @ [f]) # bs" by simp
        have op: "m_op (fs f) = m_op (fs g)" and len: "length (m_inputs (fs f)) \<le> length (m_inputs (fs g))"
          using AreBatchable_True_D(1,2)[OF ab] by blast+
        have gin: "g \<in> set b" using b by simp
        have "same_weight_buckets fs [b @ [f]]"
        proof (rule same_weight_buckets_snoc[OF old1])
          fix h assume h: "h \<in> set b" "m_op (fs h) = Times" "m_inputs (fs h) \<noteq> []"
            and f: "m_op (fs f) = Times" "m_inputs (fs f) \<noteq> []"
          have g1: "m_op (fs g) = Times" using op f(1) by simp
          have g2: "m_inputs (fs g) \<noteq> []" using len f(2) by auto
          have bb: "b \<in> set [b]" by simp
          have "m_dataFields (m_inputs (fs h) ! 0) = m_dataFields (m_inputs (fs g) ! 0)"
            by (rule same_weight_bucketsD[OF old1 bb h(1) gin h(2) g1 h(3) g2])
          with AreBatchable_True_D(3)[OF ab f]
          show "m_dataFields (m_inputs (fs h) ! 0) = m_dataFields (m_inputs (fs f) ! 0)"
            by simp
        qed
        with old2 show ?thesis
          unfolding bs' using same_weight_buckets_Cons[of fs "b @ [f]" bs] by blast
      next
        case False
        with Inr have ab: "AreBatchable nd vs (fs f) (fs g) = Inr False" by simp
        from Cons.prems(1) b ab obtain cs where cs: "Schedule_scan nd vs fs f bs = Inr cs" and bs': "bs' = b # cs"
          by (auto split: sum.splits)
        from Cons.IH[OF cs old2] have "same_weight_buckets fs cs" .
        with old1 show ?thesis
          unfolding bs' using same_weight_buckets_Cons[of fs b cs] by blast
      qed
    qed
  qed
qed

text \<open>
  In either build \<open>Schedule\<close> keeps two \<open>Times\<close> functions with different weight
  variables out of one regular set: a function joins a set only when it is batchable with
  the front, and for \<open>Times\<close> that compares the first inputs as objects. The empty
  ready set has no such pair.
\<close>

lemma no_ready_ops_same_weight: "same_weight_buckets fs (m_regularOps no_ready_ops)"
  by (simp add: same_weight_buckets_def no_ready_ops_def)

lemma Schedule_same_weight:
  assumes "Schedule nd vs fs f r = Inr r'" and "same_weight_buckets fs (m_regularOps r)"
  shows "same_weight_buckets fs (m_regularOps r')"
  using assms Schedule_scan_same_weight[of nd vs fs f "m_regularOps r"]
  by (auto simp: Schedule_def Let_def split: if_splits sum.splits)


lemma first_max_step:
  assumes "first_max bs b n"
  shows "first_max bs (if length (bs ! n) > length (bs ! b) then n else b) (Suc n)"
proof (cases "length (bs ! n) > length (bs ! b)")
  case True
  have "\<forall>j<Suc n. length (bs ! j) \<le> length (bs ! n)"
  proof (intro allI impI)
    fix j assume "j < Suc n"
    then consider "j < n" | "j = n" by linarith
    then show "length (bs ! j) \<le> length (bs ! n)"
    proof cases
      case 1
      with assms have "length (bs ! j) \<le> length (bs ! b)" by (simp add: first_max_def)
      with True show ?thesis by simp
    next
      case 2
      then show ?thesis by simp
    qed
  qed
  moreover have "\<forall>j<n. length (bs ! j) < length (bs ! n)"
  proof (intro allI impI)
    fix j assume "j < n"
    with assms have "length (bs ! j) \<le> length (bs ! b)" by (simp add: first_max_def)
    with True show "length (bs ! j) < length (bs ! n)" by simp
  qed
  ultimately show ?thesis using True by (simp add: first_max_def)
next
  case False
  have "\<forall>j<Suc n. length (bs ! j) \<le> length (bs ! b)"
  proof (intro allI impI)
    fix j assume "j < Suc n"
    then consider "j < n" | "j = n" by linarith
    then show "length (bs ! j) \<le> length (bs ! b)"
    proof cases
      case 1
      with assms show ?thesis by (simp add: first_max_def)
    next
      case 2
      with False show ?thesis by simp
    qed
  qed
  moreover have "b < Suc n" using assms by (simp add: first_max_def)
  moreover have "\<forall>j<b. length (bs ! j) < length (bs ! b)" using assms by (simp add: first_max_def)
  ultimately show ?thesis using False by (simp add: first_max_def)
qed

lemma first_max_fold:
  assumes "first_max bs b k" and "k \<le> n"
  shows "first_max bs
           (fold (\<lambda>iter best. if length (bs ! iter) > length (bs ! best) then iter else best) [k..<n] b) n"
  using assms(2)
proof (induction n)
  case 0
  with assms(1) show ?case by (simp add: first_max_def)
next
  case (Suc n)
  show ?case
  proof (cases "k = Suc n")
    case True
    with assms(1) show ?thesis by simp
  next
    case False
    with Suc.prems have kn: "k \<le> n" by simp
    from Suc.IH[OF kn] first_max_step show ?thesis using kn by simp
  qed
qed

lemma best_bucket_first_max:
  assumes "bs \<noteq> []"
  shows "first_max bs (best_bucket bs) (length bs)"
proof -
  have "first_max bs 0 1" by (simp add: first_max_def)
  moreover have "1 \<le> length bs" using assms by (cases bs) simp_all
  ultimately show ?thesis unfolding best_bucket_def by (rule first_max_fold)
qed

lemma pop_best_view:
  "m_viewOps r \<noteq> [] \<Longrightarrow> pop_best r = (m_viewOps r, r\<lparr>m_viewOps := []\<rparr>)"
  by (simp add: pop_best_def)

lemma pop_best_regular:
  "m_viewOps r = [] \<Longrightarrow> m_regularOps r \<noteq> [] \<Longrightarrow>
   pop_best r = (m_regularOps r ! best_bucket (m_regularOps r),
      r\<lparr>m_regularOps := take (best_bucket (m_regularOps r)) (m_regularOps r) @
                          drop (Suc (best_bucket (m_regularOps r))) (m_regularOps r)\<rparr>)"
  by (simp add: pop_best_def Let_def)

lemma pop_best_barrier:
  "m_viewOps r = [] \<Longrightarrow> m_regularOps r = [] \<Longrightarrow> pop_best r = (m_barrierOps r, r\<lparr>m_barrierOps := []\<rparr>)"
  by (simp add: pop_best_def)

lemma pop_best_nonempty:
  assumes "\<not> ReadyOps_empty r" and "\<forall>b\<in>set (m_regularOps r). b \<noteq> []"
  shows "fst (pop_best r) \<noteq> []"
proof (cases "m_viewOps r \<noteq> []")
  case True
  then show ?thesis by (simp add: pop_best_view)
next
  case False
  then have v: "m_viewOps r = []" by simp
  show ?thesis
  proof (cases "m_regularOps r = []")
    case True
    with v assms(1) show ?thesis by (simp add: pop_best_barrier ReadyOps_empty_def)
  next
    case False
    from best_bucket_first_max[OF False] have "best_bucket (m_regularOps r) < length (m_regularOps r)"
      by (simp add: first_max_def)
    then have "m_regularOps r ! best_bucket (m_regularOps r) \<in> set (m_regularOps r)" by simp
    with assms(2) have "m_regularOps r ! best_bucket (m_regularOps r) \<noteq> []" by blast
    with v False show ?thesis by (simp add: pop_best_regular)
  qed
qed



lemma Schedule_regular:
  "\<not> IsViewOp (m_op (fs f)) \<Longrightarrow>
   Schedule nd vs fs f r =
     (case Schedule_scan nd vs fs f (m_regularOps r) of Inl e \<Rightarrow> Inl e | Inr bs \<Rightarrow> Inr (r\<lparr>m_regularOps := bs\<rparr>))"
  by (auto simp add: Schedule_def IsViewOp_def)

lemma Schedule_scan_joins:
  assumes "Schedule_scan nd vs fs f bs = Inr bs'"
  shows "joins_first_batchable nd vs fs f bs bs'"
  using assms
proof (induction bs arbitrary: bs')
  case Nil
  then show ?case by (simp add: joins_first_batchable_def)
next
  case (Cons b bs)
  show ?case
  proof (cases b)
    case Nil
    with Cons.prems show ?thesis by simp
  next
    case (Cons g gs)
    note b = this
    show ?thesis
    proof (cases "AreBatchable nd vs (fs f) (fs g)")
      case (Inl e)
      with Cons.prems b show ?thesis by simp
    next
      case (Inr t)
      show ?thesis
      proof (cases t)
        case True
        with Inr have ab: "AreBatchable nd vs (fs f) (fs (hd b)) = Inr True" using b by simp
        with Cons.prems b have bs': "bs' = (b @ [f]) # bs" by simp
        have "b # bs = [] @ b # bs \<and> b \<noteq> [] \<and> AreBatchable nd vs (fs f) (fs (hd b)) = Inr True \<and>
          (\<forall>c\<in>set []. c \<noteq> [] \<and> AreBatchable nd vs (fs f) (fs (hd c)) = Inr False) \<and>
          bs' = [] @ (b @ [f]) # bs"
          using ab bs' b by simp
        then show ?thesis unfolding joins_first_batchable_def by blast
      next
        case False
        with Inr have ab: "AreBatchable nd vs (fs f) (fs (hd b)) = Inr False" using b by simp
        from Cons.prems(1) b ab obtain cs where cs: "Schedule_scan nd vs fs f bs = Inr cs" and bs': "bs' = b # cs"
          by (auto split: sum.splits)
        from Cons.IH[OF cs] have ih: "joins_first_batchable nd vs fs f bs cs" .
        have bne: "b \<noteq> []" using b by simp
        from ih show ?thesis unfolding joins_first_batchable_def
        proof (elim disjE exE conjE)
          fix pre c post
          assume 1: "bs = pre @ c # post" "c \<noteq> []" "AreBatchable nd vs (fs f) (fs (hd c)) = Inr True"
            "\<forall>c\<in>set pre. c \<noteq> [] \<and> AreBatchable nd vs (fs f) (fs (hd c)) = Inr False"
            "cs = pre @ (c @ [f]) # post"
          have "b # bs = (b # pre) @ c # post \<and> c \<noteq> [] \<and> AreBatchable nd vs (fs f) (fs (hd c)) = Inr True \<and>
            (\<forall>c\<in>set (b # pre). c \<noteq> [] \<and> AreBatchable nd vs (fs f) (fs (hd c)) = Inr False) \<and>
            bs' = (b # pre) @ (c @ [f]) # post"
            using 1 ab bne bs' by simp
          then show "(\<exists>pre ba post. b # bs = pre @ ba # post \<and> ba \<noteq> [] \<and>
              AreBatchable nd vs (fs f) (fs (hd ba)) = Inr True \<and>
              (\<forall>c\<in>set pre. c \<noteq> [] \<and> AreBatchable nd vs (fs f) (fs (hd c)) = Inr False) \<and>
              bs' = pre @ (ba @ [f]) # post) \<or>
             ((\<forall>c\<in>set (b # bs). c \<noteq> [] \<and> AreBatchable nd vs (fs f) (fs (hd c)) = Inr False) \<and>
              bs' = (b # bs) @ [[f]])"
            by blast
        next
          assume 2: "\<forall>c\<in>set bs. c \<noteq> [] \<and> AreBatchable nd vs (fs f) (fs (hd c)) = Inr False" "cs = bs @ [[f]]"
          have "(\<forall>c\<in>set (b # bs). c \<noteq> [] \<and> AreBatchable nd vs (fs f) (fs (hd c)) = Inr False) \<and>
              bs' = (b # bs) @ [[f]]"
            using 2 ab bne bs' by simp
          then show "(\<exists>pre ba post. b # bs = pre @ ba # post \<and> ba \<noteq> [] \<and>
              AreBatchable nd vs (fs f) (fs (hd ba)) = Inr True \<and>
              (\<forall>c\<in>set pre. c \<noteq> [] \<and> AreBatchable nd vs (fs f) (fs (hd c)) = Inr False) \<and>
              bs' = pre @ (ba @ [f]) # post) \<or>
             ((\<forall>c\<in>set (b # bs). c \<noteq> [] \<and> AreBatchable nd vs (fs f) (fs (hd c)) = Inr False) \<and>
              bs' = (b # bs) @ [[f]])"
            by blast
        qed
      qed
    qed
  qed
qed



lemma Schedule_scan_nonempty:
  assumes "Schedule_scan nd vs fs f bs = Inr bs'" and "\<forall>b\<in>set bs. b \<noteq> []"
  shows "\<forall>b\<in>set bs'. b \<noteq> []"
proof -
  from Schedule_scan_joins[OF assms(1)] assms(2) show ?thesis
    unfolding joins_first_batchable_def by auto
qed

lemma Schedule_nonempty:
  assumes "Schedule nd vs fs f r = Inr r'" and "\<forall>b\<in>set (m_regularOps r). b \<noteq> []"
  shows "\<forall>b\<in>set (m_regularOps r'). b \<noteq> []"
proof (cases "IsViewOp (m_op (fs f))")
  case True
  with assms show ?thesis by (auto simp add: Schedule_def Let_def split: if_splits)
next
  case False
  from assms(1) obtain bs where bs: "Schedule_scan nd vs fs f (m_regularOps r) = Inr bs"
    and r': "r' = r\<lparr>m_regularOps := bs\<rparr>"
    unfolding Schedule_regular[of fs f nd vs r, OF False] by (auto split: sum.splits)
  from Schedule_scan_nonempty[OF bs assms(2)] show ?thesis by (simp add: r')
qed

lemma pop_best_buckets_nonempty:
  assumes "\<forall>b\<in>set (m_regularOps r). b \<noteq> []"
  shows "\<forall>b\<in>set (m_regularOps (snd (pop_best r))). b \<noteq> []"
proof -
  have "set (take i (m_regularOps r) @ drop (Suc i) (m_regularOps r)) \<subseteq> set (m_regularOps r)" for i
    using set_take_subset set_drop_subset by fastforce
  with assms show ?thesis by (auto simp add: pop_best_def Let_def)
qed

lemma NotifyInputAvailable_fails:
  "m_pendingInputs (funs s f) \<le> 0 \<Longrightarrow>
   NotifyInputAvailable nd f s =
     Inl (LogicError ''NotifyInputAvailable: pending inputs already 0 yet we are executing it'')"
  by (simp add: NotifyInputAvailable_def)

lemma pending_set_pendingInputs [simp]:
  "m_pendingInputs (funs (set_pendingInputs f n s) f) = n"
  by (simp add: set_pendingInputs_def)

lemma NotifyInputAvailable_more:
  "m_pendingInputs (funs s f) > 1 \<Longrightarrow>
   NotifyInputAvailable nd f s = Inr (set_pendingInputs f (m_pendingInputs (funs s f) - 1) s)"
  by (simp add: NotifyInputAvailable_def Let_def)

lemma NotifyInputAvailable_last:
  "m_pendingInputs (funs s f) = 1 \<Longrightarrow>
   NotifyInputAvailable nd f s =
     (let s1 = set_pendingInputs f 0 s in
      case Schedule nd (vars s1) (funs s1) f (m_schedule s1) of
        Inl e \<Rightarrow> Inl e
      | Inr r \<Rightarrow> Inr (s1\<lparr>m_schedule := r\<rparr>))"
  by (simp add: NotifyInputAvailable_def Let_def)
text \<open>
  C2. On a ready set that is not empty, and whose regular sets each hold a function (as
  \<open>Schedule\<close> and \<open>pop_best\<close> keep them), \<open>pop_best\<close> returns a batch that is
  not empty: the whole view queue when it is not empty; otherwise the regular set of
  maximum size, the earliest of that size, which is erased from the vector of regular
  sets; otherwise the whole barrier queue.
\<close>

theorem pop_best_priority:
  assumes "\<not> ReadyOps_empty r" and "\<forall>b\<in>set (m_regularOps r). b \<noteq> []"
  shows "fst (pop_best r) \<noteq> [] \<and>
     (m_viewOps r \<noteq> [] \<longrightarrow> pop_best r = (m_viewOps r, r\<lparr>m_viewOps := []\<rparr>)) \<and>
     (m_viewOps r = [] \<and> m_regularOps r \<noteq> [] \<longrightarrow>
        (\<exists>i. first_max (m_regularOps r) i (length (m_regularOps r)) \<and>
             pop_best r = (m_regularOps r ! i,
                r\<lparr>m_regularOps := take i (m_regularOps r) @ drop (Suc i) (m_regularOps r)\<rparr>))) \<and>
     (m_viewOps r = [] \<and> m_regularOps r = [] \<longrightarrow>
        pop_best r = (m_barrierOps r, r\<lparr>m_barrierOps := []\<rparr>))"
proof (intro conjI impI)
  show "fst (pop_best r) \<noteq> []" by (rule pop_best_nonempty[OF assms])
  show "pop_best r = (m_viewOps r, r\<lparr>m_viewOps := []\<rparr>)" if "m_viewOps r \<noteq> []"
    using that by (rule pop_best_view)
  show "pop_best r = (m_barrierOps r, r\<lparr>m_barrierOps := []\<rparr>)"
    if "m_viewOps r = [] \<and> m_regularOps r = []"
    using that by (simp add: pop_best_barrier)
  show "\<exists>i. first_max (m_regularOps r) i (length (m_regularOps r)) \<and>
             pop_best r = (m_regularOps r ! i,
                r\<lparr>m_regularOps := take i (m_regularOps r) @ drop (Suc i) (m_regularOps r)\<rparr>)"
    if "m_viewOps r = [] \<and> m_regularOps r \<noteq> []"
  proof (intro exI conjI)
    show "first_max (m_regularOps r) (best_bucket (m_regularOps r)) (length (m_regularOps r))"
      using that by (simp add: best_bucket_first_max)
    show "pop_best r = (m_regularOps r ! best_bucket (m_regularOps r),
      r\<lparr>m_regularOps := take (best_bucket (m_regularOps r)) (m_regularOps r) @
                          drop (Suc (best_bucket (m_regularOps r))) (m_regularOps r)\<rparr>)"
      using that by (simp add: pop_best_regular)
  qed
qed

theorem pop_best_priority_witness:
  "\<not> ReadyOps_empty \<lparr>m_viewOps = [], m_regularOps = [[31], [32, 33], [34, 35]], m_barrierOps = [36]\<rparr> \<and>
   pop_best \<lparr>m_viewOps = [], m_regularOps = [[31], [32, 33], [34, 35]], m_barrierOps = [36]\<rparr> =
     ([32, 33], \<lparr>m_viewOps = [], m_regularOps = [[31], [34, 35]], m_barrierOps = [36]\<rparr>) \<and>
   fst (pop_best \<lparr>m_viewOps = [], m_regularOps = [[31], [32, 33], [34, 35]], m_barrierOps = [36]\<rparr>) \<noteq> [] \<and>
   pop_best \<lparr>m_viewOps = [37], m_regularOps = [[31]], m_barrierOps = [36]\<rparr> =
     ([37], \<lparr>m_viewOps = [], m_regularOps = [[31]], m_barrierOps = [36]\<rparr>) \<and>
   pop_best \<lparr>m_viewOps = [], m_regularOps = [], m_barrierOps = [36]\<rparr> =
     ([36], \<lparr>m_viewOps = [], m_regularOps = [], m_barrierOps = []\<rparr>)"
proof -
  let ?r = "\<lparr>m_viewOps = [], m_regularOps = [[31], [32, 33], [34, 35]], m_barrierOps = [36::nat]\<rparr>"
  have h1: "\<not> ReadyOps_empty ?r" by (simp add: ReadyOps_empty_def)
  have h2: "\<forall>b\<in>set (m_regularOps ?r). b \<noteq> []" by simp
  note t = pop_best_priority[OF h1 h2]
  have c2: "pop_best ?r = ([32, 33], \<lparr>m_viewOps = [], m_regularOps = [[31], [34, 35]], m_barrierOps = [36]\<rparr>)"
    by (simp add: pop_best_def best_bucket_def upt_rec Let_def)
  from t have c3: "fst (pop_best ?r) \<noteq> []" by blast
  let ?v = "\<lparr>m_viewOps = [37], m_regularOps = [[31]], m_barrierOps = [36::nat]\<rparr>"
  have "\<not> ReadyOps_empty ?v" and "\<forall>b\<in>set (m_regularOps ?v). b \<noteq> []"
    by (simp_all add: ReadyOps_empty_def)
  from pop_best_priority[OF this]
  have c4: "pop_best ?v = ([37], \<lparr>m_viewOps = [], m_regularOps = [[31]], m_barrierOps = [36]\<rparr>)"
    by simp
  let ?b = "\<lparr>m_viewOps = [], m_regularOps = [], m_barrierOps = [36::nat]\<rparr>"
  have "\<not> ReadyOps_empty ?b" and "\<forall>b\<in>set (m_regularOps ?b). b \<noteq> []"
    by (simp_all add: ReadyOps_empty_def)
  from pop_best_priority[OF this]
  have c5: "pop_best ?b = ([36], \<lparr>m_viewOps = [], m_regularOps = [], m_barrierOps = []\<rparr>)"
    by simp
  from h1 c2 c3 c4 c5 show ?thesis by blast
qed




text \<open>
  C9. \<open>NotifyInputAvailable\<close> throws when the counter is 0 (or below); otherwise it
  decrements the counter by one, and it calls \<open>Schedule\<close> on the function exactly when
  the counter has reached 0, that is when it was 1: from a larger counter nothing but the
  counter changes.
\<close>

theorem NotifyInputAvailable_counts_down:
  "(m_pendingInputs (funs s f) \<le> 0 \<longrightarrow>
      NotifyInputAvailable nd f s =
        Inl (LogicError ''NotifyInputAvailable: pending inputs already 0 yet we are executing it'')) \<and>
   (m_pendingInputs (funs s f) > 1 \<longrightarrow>
      NotifyInputAvailable nd f s = Inr (set_pendingInputs f (m_pendingInputs (funs s f) - 1) s)) \<and>
   (m_pendingInputs (funs s f) = 1 \<longrightarrow>
      NotifyInputAvailable nd f s =
        (let s1 = set_pendingInputs f 0 s in
         case Schedule nd (vars s1) (funs s1) f (m_schedule s1) of
           Inl e \<Rightarrow> Inl e
         | Inr r \<Rightarrow> Inr (s1\<lparr>m_schedule := r\<rparr>)))"
  using NotifyInputAvailable_fails[of s f nd] NotifyInputAvailable_more[of s f nd]
    NotifyInputAvailable_last[of s f nd]
  by blast

text \<open>
  The theorem at work: function 20 of the example graph waits for two inputs, then for
  one, then for none.
\<close>

theorem NotifyInputAvailable_counts_down_witness:
  "NotifyInputAvailable False 20 (set_pendingInputs 20 2 example_state) =
     Inr (set_pendingInputs 20 1 (set_pendingInputs 20 2 example_state)) \<and>
   m_schedule (set_pendingInputs 20 1 (set_pendingInputs 20 2 example_state)) = no_ready_ops \<and>
   NotifyInputAvailable False 20 (set_pendingInputs 20 1 example_state) =
     Inr ((set_pendingInputs 20 0 (set_pendingInputs 20 1 example_state))
            \<lparr>m_schedule := no_ready_ops\<lparr>m_regularOps := [[20]]\<rparr>\<rparr>) \<and>
   NotifyInputAvailable False 20 (set_pendingInputs 20 0 example_state) =
     Inl (LogicError ''NotifyInputAvailable: pending inputs already 0 yet we are executing it'')"
proof -
  note t = NotifyInputAvailable_counts_down
  have c1: "NotifyInputAvailable False 20 (set_pendingInputs 20 2 example_state) =
     Inr (set_pendingInputs 20 1 (set_pendingInputs 20 2 example_state))"
    using t[of "set_pendingInputs 20 2 example_state" 20] by simp
  have c2: "m_schedule (set_pendingInputs 20 1 (set_pendingInputs 20 2 example_state)) = no_ready_ops"
    by (simp add: set_pendingInputs_def example_state_def)
  have op: "m_op (funs (set_pendingInputs 20 0 (set_pendingInputs 20 1 example_state)) 20) = Times"
    by (simp add: set_pendingInputs_def example_state_def example_funs_def example_function_def)
  have sch: "Schedule False (vars (set_pendingInputs 20 0 (set_pendingInputs 20 1 example_state)))
      (funs (set_pendingInputs 20 0 (set_pendingInputs 20 1 example_state))) 20
      (m_schedule (set_pendingInputs 20 0 (set_pendingInputs 20 1 example_state))) =
      Inr (no_ready_ops\<lparr>m_regularOps := [[20]]\<rparr>)"
    using op
    by (simp add: Schedule_def Let_def IsViewOp_def)
       (simp add: set_pendingInputs_def example_state_def no_ready_ops_def)
  have c3: "NotifyInputAvailable False 20 (set_pendingInputs 20 1 example_state) =
     Inr ((set_pendingInputs 20 0 (set_pendingInputs 20 1 example_state))
            \<lparr>m_schedule := no_ready_ops\<lparr>m_regularOps := [[20]]\<rparr>\<rparr>)"
    using t[of "set_pendingInputs 20 1 example_state" 20] sch by (simp add: Let_def)
  have c4: "NotifyInputAvailable False 20 (set_pendingInputs 20 0 example_state) =
     Inl (LogicError ''NotifyInputAvailable: pending inputs already 0 yet we are executing it'')"
    using t[of "set_pendingInputs 20 0 example_state" 20] by simp
  from c1 c2 c3 c4 show ?thesis by blast
qed

section \<open>Lazily created gradients\<close>

lemma vars_set_gradient [simp]:
  "vars (set_gradient d x s) = (vars s)(d := (vars s d)\<lparr>m_gradient := x\<rparr>)"
  by (simp add: set_gradient_def)

lemma LCLIG_has_gradient:
  "LazilyCreateLazilyIndexedGradient (Suc n) v s = Inr (1, s)"
  if "m_gradient (vars s (m_dataFields v)) \<noteq> None"
  using that by (auto simp add: Let_def)

lemma LCLIG_fresh:
  assumes "m_gradient (vars s (m_dataFields v)) = None"
    and "fst (m_lazyIndex (vars s (m_dataFields v))) = None"
    and "m_value (vars s (m_dataFields v)) = Some val"
  shows "LazilyCreateLazilyIndexedGradient (Suc n) v s =
     Inr (0, set_gradient (m_dataFields v)
               (Some (fst (AllocateTensorInArena (m_shape (vars s (m_dataFields v)))
                        (m_dataType (vars s (m_dataFields v))) (nd_device val) (arena s))))
               (s\<lparr>arena := snd (AllocateTensorInArena (m_shape (vars s (m_dataFields v)))
                        (m_dataType (vars s (m_dataFields v))) (nd_device val) (arena s))\<rparr>))"
  using assms by (simp add: Let_def split_beta)

lemma LCLIG_lazy:
  assumes "m_gradient (vars s (m_dataFields v)) = None"
    and "m_lazyIndex (vars s (m_dataFields v)) = (Some from, index)"
    and "m_outputs (funs s from) = fromOutput # rest"
  shows "LazilyCreateLazilyIndexedGradient (Suc n) v s =
     (case LazilyCreateLazilyIndexedGradient n fromOutput s of
        Inl e \<Rightarrow> Inl e
      | Inr (beta, s1) \<Rightarrow>
          (case m_gradient (vars s1 (m_dataFields fromOutput)) of
             None \<Rightarrow>
               if index = SIZE_MAX then Inr (beta, set_gradient (m_dataFields v) None s1)
               else Inl NullDereference
           | Some fromGradient \<Rightarrow>
               if index = SIZE_MAX
               then Inr (beta, set_gradient (m_dataFields v) (Some fromGradient) s1)
               else
                 let s2 = (if beta = 0
                           then s1\<lparr>mem := SetValue fromGradient 0 (mem s1)\<rparr>
                           else s1);
                     (view, a') = IndexLastAxis fromGradient index (arena s2)
                 in Inr (1, set_gradient (m_dataFields v) (Some view) (s2\<lparr>arena := a'\<rparr>))))"
  using assms by (simp add: Let_def)

lemma LCLIG_post:
  "LazilyCreateLazilyIndexedGradient n v s = Inr (beta, s') \<Longrightarrow>
   m_gradient (vars s' (m_dataFields v)) \<noteq> None \<and> (beta = 0 \<or> beta = 1)"
proof (induction n arbitrary: v s beta s')
  case 0
  then show ?case by simp
next
  case (Suc n)
  show ?case
  proof (cases "m_gradient (vars s (m_dataFields v))")
    case (Some g)
    with Suc.prems show ?thesis by (simp add: Let_def)
  next
    case None
    note g = this
    show ?thesis
    proof (cases "fst (m_lazyIndex (vars s (m_dataFields v)))")
      case None
      with Suc.prems g show ?thesis
        by (auto simp add: Let_def split_beta split: option.splits)
    next
      case (Some fr)
      then have li: "m_lazyIndex (vars s (m_dataFields v)) = (Some fr, snd (m_lazyIndex (vars s (m_dataFields v))))"
        by (cases "m_lazyIndex (vars s (m_dataFields v))") simp
      show ?thesis
      proof (cases "m_outputs (funs s fr)")
        case Nil
        with Suc.prems g Some show ?thesis by (simp add: Let_def)
      next
        case (Cons fromOutput rest)
        note eq = LCLIG_lazy[OF g li Cons, of n]
        show ?thesis
        proof (cases "LazilyCreateLazilyIndexedGradient n fromOutput s")
          case (Inl e)
          with Suc.prems eq show ?thesis by simp
        next
          case (Inr r)
          obtain b s1 where r: "r = (b, s1)" by (cases r)
          from Suc.IH[OF Inr[unfolded r]]
          obtain fg where fg: "m_gradient (vars s1 (m_dataFields fromOutput)) = Some fg"
            and b: "b = 0 \<or> b = 1" by auto
          from Suc.prems show ?thesis
            unfolding eq Inr r using fg b
            by (auto simp add: Let_def split_beta split: if_splits)
        qed
      qed
    qed
  qed
qed

lemma LCLIG_terminates:
  "gradient_chain s v k \<Longrightarrow> k < n \<Longrightarrow> LazilyCreateLazilyIndexedGradient n v s \<noteq> Inl Diverges"
proof (induction arbitrary: n rule: gradient_chain.induct)
  case (chain_end s v)
  then obtain m where n: "n = Suc m" by (cases n) auto
  from chain_end(1) show ?case unfolding n
    by (auto simp add: Let_def split_beta split: option.splits)
next
  case (chain_no_output s v fr)
  then obtain m where n: "n = Suc m" by (cases n) auto
  from chain_no_output show ?case unfolding n by (simp add: Let_def)
next
  case (chain_step s v fr fromOutput rest k)
  then obtain m where n: "n = Suc m" and km: "k < m" by (cases n) auto
  have li: "m_lazyIndex (vars s (m_dataFields v)) = (Some fr, snd (m_lazyIndex (vars s (m_dataFields v))))"
    using chain_step(2) by (cases "m_lazyIndex (vars s (m_dataFields v))") simp
  note eq = LCLIG_lazy[OF chain_step(1) li chain_step(3), of m]
  from chain_step.IH[OF km] show ?case unfolding n eq
    by (auto simp add: Let_def split_beta split: sum.splits option.splits)
qed

lemma SetValue_range:
  "i \<in> nd_range g \<Longrightarrow> SetValue g c m (nd_buffer g) i = c"
  by (simp add: SetValue_def)

text \<open>
  C5. \<open>LazilyCreateLazilyIndexedGradient\<close> returns 1 and changes nothing when the
  variable has a gradient. Otherwise, when the variable is a lazy view of a batched
  function, it first ensures the gradient of that function's output; the output then has
  a gradient, and with the sentinel index the variable gets that very tensor and the
  beta of the recursive call is returned, while with a real index the whole tensor is set
  to 0 when the recursive call returned 0, the variable gets the view of its slice along
  the last axis, and 1 is returned. Otherwise a fresh tensor of the variable's shape is
  allocated in the arena and 0 is returned. A call that returns leaves a gradient in the
  variable and returns 0 or 1, and the recursion is no deeper than the chain of lazy
  indices.
\<close>

theorem LazilyCreateLazilyIndexedGradient_cases:
  "(m_gradient (vars s (m_dataFields v)) \<noteq> None \<longrightarrow>
      LazilyCreateLazilyIndexedGradient (Suc n) v s = Inr (1, s)) \<and>
   (m_gradient (vars s (m_dataFields v)) = None \<and>
    m_lazyIndex (vars s (m_dataFields v)) = (Some producer, index) \<and>
    m_outputs (funs s producer) = fromOutput # rest \<and>
    LazilyCreateLazilyIndexedGradient n fromOutput s = Inr (beta, s1) \<longrightarrow>
      (\<exists>fromGradient. m_gradient (vars s1 (m_dataFields fromOutput)) = Some fromGradient \<and>
         (index = SIZE_MAX \<longrightarrow>
            LazilyCreateLazilyIndexedGradient (Suc n) v s =
              Inr (beta, set_gradient (m_dataFields v) (Some fromGradient) s1)) \<and>
         (index \<noteq> SIZE_MAX \<longrightarrow>
            LazilyCreateLazilyIndexedGradient (Suc n) v s =
              Inr (1, set_gradient (m_dataFields v)
                        (Some (fst (IndexLastAxis fromGradient index (arena s1))))
                        ((if beta = 0 then s1\<lparr>mem := SetValue fromGradient 0 (mem s1)\<rparr> else s1)
                           \<lparr>arena := snd (IndexLastAxis fromGradient index (arena s1))\<rparr>))) \<and>
         (\<forall>i\<in>nd_range fromGradient. SetValue fromGradient 0 (mem s1) (nd_buffer fromGradient) i = 0))) \<and>
   (m_gradient (vars s (m_dataFields v)) = None \<and>
    fst (m_lazyIndex (vars s (m_dataFields v))) = None \<and>
    m_value (vars s (m_dataFields v)) = Some val \<longrightarrow>
      LazilyCreateLazilyIndexedGradient (Suc n) v s =
        Inr (0, set_gradient (m_dataFields v)
                  (Some (fst (AllocateTensorInArena (m_shape (vars s (m_dataFields v)))
                           (m_dataType (vars s (m_dataFields v))) (nd_device val) (arena s))))
                  (s\<lparr>arena := snd (AllocateTensorInArena (m_shape (vars s (m_dataFields v)))
                           (m_dataType (vars s (m_dataFields v))) (nd_device val) (arena s))\<rparr>))) \<and>
   (LazilyCreateLazilyIndexedGradient m v s = Inr (beta', s') \<longrightarrow>
      m_gradient (vars s' (m_dataFields v)) \<noteq> None \<and> (beta' = 0 \<or> beta' = 1)) \<and>
   (gradient_chain s v k \<and> k < m \<longrightarrow> LazilyCreateLazilyIndexedGradient m v s \<noteq> Inl Diverges)"
proof (intro conjI impI)
  show "LazilyCreateLazilyIndexedGradient (Suc n) v s = Inr (1, s)"
    if "m_gradient (vars s (m_dataFields v)) \<noteq> None"
    using that by (rule LCLIG_has_gradient)
next
  assume h: "m_gradient (vars s (m_dataFields v)) = None \<and>
    m_lazyIndex (vars s (m_dataFields v)) = (Some producer, index) \<and>
    m_outputs (funs s producer) = fromOutput # rest \<and>
    LazilyCreateLazilyIndexedGradient n fromOutput s = Inr (beta, s1)"
  then have g: "m_gradient (vars s (m_dataFields v)) = None"
    and li: "m_lazyIndex (vars s (m_dataFields v)) = (Some producer, index)"
    and out: "m_outputs (funs s producer) = fromOutput # rest"
    and r: "LazilyCreateLazilyIndexedGradient n fromOutput s = Inr (beta, s1)"
    by blast+
  from LCLIG_post[OF r] obtain fg where fg: "m_gradient (vars s1 (m_dataFields fromOutput)) = Some fg"
    by auto
  note eq = LCLIG_lazy[OF g li out, of n, unfolded r]
  have 1: "index = SIZE_MAX \<longrightarrow>
            LazilyCreateLazilyIndexedGradient (Suc n) v s =
              Inr (beta, set_gradient (m_dataFields v) (Some fg) s1)"
    unfolding eq using fg by simp
  have 2: "index \<noteq> SIZE_MAX \<longrightarrow>
            LazilyCreateLazilyIndexedGradient (Suc n) v s =
              Inr (1, set_gradient (m_dataFields v)
                        (Some (fst (IndexLastAxis fg index (arena s1))))
                        ((if beta = 0 then s1\<lparr>mem := SetValue fg 0 (mem s1)\<rparr> else s1)
                           \<lparr>arena := snd (IndexLastAxis fg index (arena s1))\<rparr>))"
    unfolding eq using fg by (simp add: Let_def split_beta)
  have 3: "\<forall>i\<in>nd_range fg. SetValue fg 0 (mem s1) (nd_buffer fg) i = 0"
    by (simp add: SetValue_range)
  from fg 1 2 3
  show "\<exists>fromGradient. m_gradient (vars s1 (m_dataFields fromOutput)) = Some fromGradient \<and>
         (index = SIZE_MAX \<longrightarrow>
            LazilyCreateLazilyIndexedGradient (Suc n) v s =
              Inr (beta, set_gradient (m_dataFields v) (Some fromGradient) s1)) \<and>
         (index \<noteq> SIZE_MAX \<longrightarrow>
            LazilyCreateLazilyIndexedGradient (Suc n) v s =
              Inr (1, set_gradient (m_dataFields v)
                        (Some (fst (IndexLastAxis fromGradient index (arena s1))))
                        ((if beta = 0 then s1\<lparr>mem := SetValue fromGradient 0 (mem s1)\<rparr> else s1)
                           \<lparr>arena := snd (IndexLastAxis fromGradient index (arena s1))\<rparr>))) \<and>
         (\<forall>i\<in>nd_range fromGradient. SetValue fromGradient 0 (mem s1) (nd_buffer fromGradient) i = 0)"
    by blast
next
  assume "m_gradient (vars s (m_dataFields v)) = None \<and>
    fst (m_lazyIndex (vars s (m_dataFields v))) = None \<and>
    m_value (vars s (m_dataFields v)) = Some val"
  then show "LazilyCreateLazilyIndexedGradient (Suc n) v s =
        Inr (0, set_gradient (m_dataFields v)
                  (Some (fst (AllocateTensorInArena (m_shape (vars s (m_dataFields v)))
                           (m_dataType (vars s (m_dataFields v))) (nd_device val) (arena s))))
                  (s\<lparr>arena := snd (AllocateTensorInArena (m_shape (vars s (m_dataFields v)))
                           (m_dataType (vars s (m_dataFields v))) (nd_device val) (arena s))\<rparr>))"
    using LCLIG_fresh[of s v val n] by blast
next
  assume r: "LazilyCreateLazilyIndexedGradient m v s = Inr (beta', s')"
  from LCLIG_post[OF r] show "m_gradient (vars s' (m_dataFields v)) \<noteq> None" and "beta' = 0 \<or> beta' = 1"
    by blast+
next
  assume "gradient_chain s v k \<and> k < m"
  then show "LazilyCreateLazilyIndexedGradient m v s \<noteq> Inl Diverges"
    using LCLIG_terminates[of s v k m] by blast
qed

text \<open>
  The theorem at work on the example: the gradient of the batched output (variable 18)
  is allocated first, which returns 0; variable 13 is its slice of index 1, so the whole
  new tensor is set to 0, variable 13 gets the view at offset 3, and 1 is returned.
\<close>

theorem LazilyCreateLazilyIndexedGradient_cases_witness:
  "LazilyCreateLazilyIndexedGradient 1 (variable_at 18) example_lazy_state =
     Inr (0, set_gradient 18
               (Some \<lparr>nd_id = 202, nd_buffer = 200, nd_offset = 0, nd_shape = [3, 2],
                      nd_dataType = 0, nd_device = 0, nd_sparse = False\<rparr>)
               (example_lazy_state\<lparr>arena :=
                  \<lparr>m_currentArena = Some \<lparr>nd_id = 200, nd_buffer = 200, nd_offset = 0,
                      nd_shape = [64000000], nd_dataType = 0, nd_device = 0, nd_sparse = False\<rparr>,
                   m_currentArenaUsed = 6, next_id = 203\<rparr>\<rparr>)) \<and>
   fst (projr (LazilyCreateLazilyIndexedGradient 2 (variable_at 13) example_lazy_state)) = 1 \<and>
   m_gradient (vars (snd (projr (LazilyCreateLazilyIndexedGradient 2 (variable_at 13) example_lazy_state))) 13) =
     Some \<lparr>nd_id = 203, nd_buffer = 200, nd_offset = 3, nd_shape = [3],
            nd_dataType = 0, nd_device = 0, nd_sparse = False\<rparr> \<and>
   mem (snd (projr (LazilyCreateLazilyIndexedGradient 2 (variable_at 13) example_lazy_state))) 200 5 = 0 \<and>
   gradient_chain example_lazy_state (variable_at 13) 1 \<and>
   LazilyCreateLazilyIndexedGradient 2 (variable_at 13) example_lazy_state \<noteq> Inl Diverges"
proof -
  let ?g = "\<lparr>nd_id = 202, nd_buffer = 200, nd_offset = 0, nd_shape = [3, 2],
                      nd_dataType = 0, nd_device = 0, nd_sparse = False\<rparr>"
  let ?a = "\<lparr>m_currentArena = Some \<lparr>nd_id = 200, nd_buffer = 200, nd_offset = 0,
                      nd_shape = [64000000], nd_dataType = 0, nd_device = 0, nd_sparse = False\<rparr>,
                   m_currentArenaUsed = 6, next_id = 203\<rparr>"
  let ?s1 = "set_gradient 18 (Some ?g) (example_lazy_state\<lparr>arena := ?a\<rparr>)"
  note t = LazilyCreateLazilyIndexedGradient_cases
  have v18: "vars example_lazy_state 18 =
      (example_fields [3, 2] Output (Some 25))\<lparr>m_value := Some (example_tensor 100 [3, 2])\<rparr>"
    and v13: "vars example_lazy_state 13 =
      (example_fields [3] Output (Some 20))\<lparr>m_lazyIndex := (Some 25, 1)\<rparr>"
    and f25: "funs example_lazy_state 25 = example_function Times [10, 12] 18"
    and ar: "arena example_lazy_state = initial_arena\<lparr>next_id := 200\<rparr>"
    by (simp_all add: example_lazy_state_def example_state_def)
  have al: "AllocateTensorInArena [3, 2] 0 0 (initial_arena\<lparr>next_id := 200\<rparr>) = (?g, ?a)"
    by (simp add: AllocateTensorInArena_def make_NDArrayView_def SliceView_def AsShape_def
          TotalSize_def ARENASIZE_def initial_arena_def Let_def)
  have h18: "m_gradient (vars example_lazy_state (m_dataFields (variable_at 18))) = None \<and>
    fst (m_lazyIndex (vars example_lazy_state (m_dataFields (variable_at 18)))) = None \<and>
    m_value (vars example_lazy_state (m_dataFields (variable_at 18))) = Some (example_tensor 100 [3, 2])"
    by (simp add: variable_at_def v18 example_fields_def)
  from t[of example_lazy_state "variable_at 18" 0 _ _ _ _ _ _ "example_tensor 100 [3, 2]"] h18
  have c1: "LazilyCreateLazilyIndexedGradient 1 (variable_at 18) example_lazy_state = Inr (0, ?s1)"
    by (simp add: variable_at_def v18 example_fields_def example_tensor_def ar al)
  have h13: "m_gradient (vars example_lazy_state (m_dataFields (variable_at 13))) = None \<and>
    m_lazyIndex (vars example_lazy_state (m_dataFields (variable_at 13))) = (Some 25, 1) \<and>
    m_outputs (funs example_lazy_state 25) = variable_at 18 # [] \<and>
    LazilyCreateLazilyIndexedGradient 1 (variable_at 18) example_lazy_state = Inr (0, ?s1)"
    using c1 by (simp add: variable_at_def v13 f25 example_fields_def example_function_def)
  have gs1: "m_gradient (vars ?s1 (m_dataFields (variable_at 18))) = Some ?g"
    by (simp add: set_gradient_def variable_at_def)
  have ne: "(1::nat) \<noteq> SIZE_MAX" by (simp add: SIZE_MAX_def)
  from t[of example_lazy_state "variable_at 13" 1 25 1 "variable_at 18" "[]" 0 ?s1] h13 gs1 ne
  have c2: "LazilyCreateLazilyIndexedGradient 2 (variable_at 13) example_lazy_state =
      Inr (1, set_gradient (m_dataFields (variable_at 13))
                        (Some (fst (IndexLastAxis ?g 1 (arena ?s1))))
                        ((?s1\<lparr>mem := SetValue ?g 0 (mem ?s1)\<rparr>)
                           \<lparr>arena := snd (IndexLastAxis ?g 1 (arena ?s1))\<rparr>))"
    by (simp add: numeral_2_eq_2)
  have c3: "gradient_chain example_lazy_state (variable_at 13) 1"
  proof -
    have base: "gradient_chain example_lazy_state (variable_at 18) 0"
      by (rule gradient_chain.chain_end) (simp add: variable_at_def v18 example_fields_def)
    have a: "m_gradient (vars example_lazy_state (m_dataFields (variable_at 13))) = None"
      and b: "fst (m_lazyIndex (vars example_lazy_state (m_dataFields (variable_at 13)))) = Some 25"
      and c: "m_outputs (funs example_lazy_state 25) = variable_at 18 # []"
      by (simp_all add: variable_at_def v13 f25 example_fields_def example_function_def)
    have "gradient_chain example_lazy_state (variable_at 13) (Suc 0)"
      by (rule gradient_chain.chain_step[OF a b c base])
    then show ?thesis by simp
  qed
  from t[of example_lazy_state "variable_at 13" _ _ _ _ _ _ _ _ 2 _ _ 1] c3
  have c4: "LazilyCreateLazilyIndexedGradient 2 (variable_at 13) example_lazy_state \<noteq> Inl Diverges"
    by simp
  have c5: "fst (projr (LazilyCreateLazilyIndexedGradient 2 (variable_at 13) example_lazy_state)) = 1"
    unfolding c2 by simp
  have c6: "m_gradient (vars (snd (projr (LazilyCreateLazilyIndexedGradient 2 (variable_at 13) example_lazy_state))) 13) =
     Some \<lparr>nd_id = 203, nd_buffer = 200, nd_offset = 3, nd_shape = [3],
            nd_dataType = 0, nd_device = 0, nd_sparse = False\<rparr>"
    unfolding c2 by (simp add: set_gradient_def variable_at_def IndexLastAxis_def TotalSize_def)
  have c7: "mem (snd (projr (LazilyCreateLazilyIndexedGradient 2 (variable_at 13) example_lazy_state))) 200 5 = 0"
    unfolding c2 by (simp add: set_gradient_def SetValue_def nd_range_def TotalSize_def)
  from c1 c5 c6 c7 c3 c4 show ?thesis by blast
qed

section \<open>The forward entry point\<close>

lemmas example_run =
  Let_def variable_at_def example_root_state_def example_fields_def example_function_def
  example_tensor_def example_kernels_def int_cast_def set_pendingInputs_def Schedule_def
  IsViewOp_def no_ready_ops_def GetValue_def ReadyOps_empty_def pop_best_def best_bucket_def
  ExecuteBatchedOpAndUpdateSchedule_def doNaively_def MemoizeKnowableValueInArena_def Shape_def
  AllocateTensorInArena_def make_NDArrayView_def SliceView_def AsShape_def TotalSize_def
  ARENASIZE_def initial_arena_def set_value_def ResetPendingToIdle_def clear_consumers_def
  set_consumers_def add_consumer_def NotifyInputAvailable_def Backward_def set_visited_def
  set_gradient_def seed_root_gradient_def SetValue_def nd_range_def BackpropTo_def
  collect_gradients_def BatchedForward_def BatchedBackward_def

lemma fuel_9: "(9::nat) = Suc (Suc (Suc (Suc (Suc (Suc (Suc (Suc (Suc 0))))))))"
  by simp

lemma vars_set_value [simp]:
  "vars (set_value d x s) = (vars s)(d := (vars s d)\<lparr>m_value := x\<rparr>)"
  by (simp add: set_value_def)

lemma LazilyIndexedValue_post:
  assumes "LazilyIndexedValue n v s = Inr (val, s')"
  shows "m_value (vars s' (m_dataFields v)) = Some val"
proof (cases n)
  case 0
  with assms show ?thesis by simp
next
  case (Suc k)
  show ?thesis
  proof (cases "m_value (vars s (m_dataFields v))")
    case (Some x)
    with assms Suc show ?thesis by (simp add: Let_def)
  next
    case None
    with assms Suc show ?thesis
      by (auto simp add: Let_def split_beta split: option.splits list.splits sum.splits if_splits)
  qed
qed

lemma GetValue_present:
  "m_value (vars s (m_dataFields v)) = Some val \<Longrightarrow> GetValue K n v s = Inr (val, s)"
  by (simp add: GetValue_def Let_def)

lemma GetValue_post:
  assumes "GetValue K n v s = Inr (val, s')"
  shows "m_value (vars s' (m_dataFields v)) = Some val"
proof (cases "m_value (vars s (m_dataFields v))")
  case (Some x)
  with assms show ?thesis by (simp add: GetValue_def Let_def)
next
  case None
  with assms obtain s2 where "LazilyIndexedValue n v s2 = Inr (val, s')"
    by (auto simp add: GetValue_def Let_def split: sum.splits if_splits)
  then show ?thesis by (rule LazilyIndexedValue_post)
qed

text \<open>
  C8. When the value slot of the variable is filled, \<open>GetValue\<close> returns that tensor
  and leaves the whole state as it is: nothing is traversed, scheduled or computed. A
  call that returns has filled the slot with the tensor it returns, so a second call, with
  whatever bound, returns the same tensor object and changes nothing.
\<close>

theorem GetValue_idempotent:
  "(m_value (vars s (m_dataFields v)) = Some val \<longrightarrow> GetValue K n v s = Inr (val, s)) \<and>
   (GetValue K n v s = Inr (val, s') \<longrightarrow>
      m_value (vars s' (m_dataFields v)) = Some val \<and> GetValue K m v s' = Inr (val, s'))"
proof (intro conjI impI)
  show "GetValue K n v s = Inr (val, s)" if "m_value (vars s (m_dataFields v)) = Some val"
    using that by (rule GetValue_present)
  assume r: "GetValue K n v s = Inr (val, s')"
  show p: "m_value (vars s' (m_dataFields v)) = Some val" by (rule GetValue_post[OF r])
  show "GetValue K m v s' = Inr (val, s')" by (rule GetValue_present[OF p])
qed

text \<open>
  The theorem at work: the first call on the root of the example chain runs both
  functions and returns the tensor 205; the second call returns it again and leaves the
  state as the first call left it.
\<close>

theorem GetValue_idempotent_witness:
  "fst (projr (GetValue example_kernels 9 (variable_at 42) example_root_state)) =
     \<lparr>nd_id = 205, nd_buffer = 200, nd_offset = 2, nd_shape = [2],
      nd_dataType = 0, nd_device = 0, nd_sparse = False\<rparr> \<and>
   GetValue example_kernels 9 (variable_at 42)
       (snd (projr (GetValue example_kernels 9 (variable_at 42) example_root_state))) =
     Inr (\<lparr>nd_id = 205, nd_buffer = 200, nd_offset = 2, nd_shape = [2],
           nd_dataType = 0, nd_device = 0, nd_sparse = False\<rparr>,
          snd (projr (GetValue example_kernels 9 (variable_at 42) example_root_state)))"
proof -
  let ?t = "\<lparr>nd_id = 205, nd_buffer = 200, nd_offset = 2, nd_shape = [2],
      nd_dataType = 0, nd_device = 0, nd_sparse = False\<rparr>"
  have "\<exists>S. GetValue example_kernels 9 (variable_at 42) example_root_state = Inr (?t, S)"
    unfolding fuel_9 by (simp add: example_run)
  then obtain S where e: "GetValue example_kernels 9 (variable_at 42) example_root_state = Inr (?t, S)"
    by blast
  from GetValue_idempotent[of example_root_state "variable_at 42" ?t example_kernels 9 S 9] e
  have "GetValue example_kernels 9 (variable_at 42) S = Inr (?t, S)" by blast
  with e show ?thesis by simp
qed

section \<open>The backward entry point\<close>

lemma values_kept_refl: "values_kept s s"
  by (simp add: values_kept_def)

lemma values_kept_trans: "values_kept a b \<Longrightarrow> values_kept b c \<Longrightarrow> values_kept a c"
  by (simp add: values_kept_def)

lemma values_kept_setters:
  "values_kept s (set_visited d b s)"
  "values_kept s (set_gradient d g s)"
  "values_kept s (add_consumer d c s)"
  "values_kept s (set_pendingInputs f k s)"
  by (simp_all add: values_kept_def set_visited_def set_gradient_def add_consumer_def
        set_consumers_def set_pendingInputs_def Let_def)

lemma determine_inputs_kept:
  assumes D: "\<forall>v s s'. DetermineConsumersForBackward n v s = Inr s' \<longrightarrow> values_kept s s'"
  shows "determine_inputs n f xs i s = Inr s' \<Longrightarrow> values_kept s s'"
proof (induction xs arbitrary: i s s')
  case Nil
  then show ?case by (simp add: values_kept_refl)
next
  case (Cons x rest)
  from Cons.prems obtain input where
    inp: "(case fst (m_lazyIndex (vars s (m_dataFields x))) of
              Some producer \<Rightarrow>
                (case m_outputs (funs s producer) of
                   [] \<Rightarrow> Inl IndexOutOfRange
                 | out0 # _ \<Rightarrow> Inr out0)
            | None \<Rightarrow> Inr x) = Inr input"
    by (auto split: sum.splits)
  let ?d = "m_dataFields input"
  let ?s1 = "set_visited ?d False s"
  have k1: "values_kept s ?s1" by (rule values_kept_setters)
  show ?case
  proof (cases "m_needsGradient (vars ?s1 ?d)")
    case False
    with Cons.prems inp have "determine_inputs n f rest (i + 1) ?s1 = Inr s'"
      by (simp add: Let_def)
    from Cons.IH[OF this] k1 show ?thesis by (rule values_kept_trans[rotated])
  next
    case True
    let ?s2 = "add_consumer ?d (f, i) (set_gradient ?d None ?s1)"
    have k2: "values_kept s ?s2"
      using k1 values_kept_setters(2)[of ?s1 ?d None] values_kept_setters(3)[of "set_gradient ?d None ?s1" ?d "(f, i)"]
      by (blast intro: values_kept_trans)
    from Cons.prems inp True obtain s3 where
      d: "DetermineConsumersForBackward n input ?s2 = Inr s3"
      and r: "determine_inputs n f rest (i + 1) s3 = Inr s'"
      by (auto simp add: Let_def split: sum.splits)
    from D d have "values_kept ?s2 s3" by blast
    with Cons.IH[OF r] k2 show ?thesis by (blast intro: values_kept_trans)
  qed
qed

lemma Determine_kept:
  "(\<forall>v s s'. DetermineConsumersForBackward n v s = Inr s' \<longrightarrow> values_kept s s') \<and>
   (\<forall>f s s'. DetermineConsumersForBackward_f n f s = Inr s' \<longrightarrow> values_kept s s')"
proof (induction n)
  case 0
  then show ?case by simp
next
  case (Suc n)
  then have Dn: "\<And>v s s'. DetermineConsumersForBackward n v s = Inr s' \<Longrightarrow> values_kept s s'"
    and Fn: "\<And>f s s'. DetermineConsumersForBackward_f n f s = Inr s' \<Longrightarrow> values_kept s s'"
    by blast+
  have In: "\<And>f xs i s s'. determine_inputs n f xs i s = Inr s' \<Longrightarrow> values_kept s s'"
    using determine_inputs_kept[of n] Dn by blast
  have 1: "values_kept s s'" if r: "DetermineConsumersForBackward (Suc n) v s = Inr s'" for v s s'
  proof -
    let ?s1 = "set_visited (m_dataFields v) False s"
    have k1: "values_kept s ?s1" by (rule values_kept_setters)
    from r have "s' = ?s1 \<or> (\<exists>f. DetermineConsumersForBackward_f n f ?s1 = Inr s')"
      by (auto simp add: Let_def split: if_splits option.splits)
    then show ?thesis using k1 Fn by (blast intro: values_kept_trans)
  qed
  have 2: "values_kept s s'" if r: "DetermineConsumersForBackward_f (Suc n) f s = Inr s'" for f s s'
  proof -
    let ?s1 = "set_pendingInputs f (- 2) s"
    from r have "s' = s \<or> (\<exists>s2. determine_inputs n f (m_inputs (funs ?s1 f)) 0 ?s1 = Inr s2 \<and>
        s' = set_pendingInputs f 0 s2)"
      by (auto simp add: Let_def split: if_splits sum.splits)
    then show ?thesis
    proof
      assume "s' = s"
      then show ?thesis by (simp add: values_kept_refl)
    next
      assume "\<exists>s2. determine_inputs n f (m_inputs (funs ?s1 f)) 0 ?s1 = Inr s2 \<and>
        s' = set_pendingInputs f 0 s2"
      then obtain s2 where a: "determine_inputs n f (m_inputs (funs ?s1 f)) 0 ?s1 = Inr s2"
        and b: "s' = set_pendingInputs f 0 s2" by blast
      have "values_kept s ?s1" by (rule values_kept_setters)
      moreover have "values_kept ?s1 s2" by (rule In[OF a])
      moreover have "values_kept s2 s'" unfolding b by (rule values_kept_setters)
      ultimately show ?thesis by (blast intro: values_kept_trans)
    qed
  qed
  from 1 2 show ?case by blast
qed

lemma DetermineConsumersForBackward_value:
  "DetermineConsumersForBackward n v s = Inr s' \<Longrightarrow> m_value (vars s' x) = m_value (vars s x)"
  using Determine_kept[of n] by (auto simp add: values_kept_def)

lemma Allocate_new_id:
  "next_id a \<le> nd_id (fst (AllocateTensorInArena shape dt dev a))"
proof (cases rule: Allocate_cases[where shape=shape and a=a])
  case large
  then show ?thesis by (simp add: Allocate_large)
next
  case fresh
  then show ?thesis by (simp add: Allocate_fresh[OF fresh])
next
  case (carve blk)
  then show ?thesis by (simp add: Allocate_carve[OF carve])
qed

lemma seed_root_gradient_result:
  assumes "m_value (vars s (m_dataFields r)) = Some val"
  shows "seed_root_gradient r s =
     Inr (set_gradient (m_dataFields r)
            (Some (fst (AllocateTensorInArena (Shape (vars s) r) (m_dataType (vars s (m_dataFields r)))
                          (nd_device val) (arena s))))
            (s\<lparr>arena := snd (AllocateTensorInArena (Shape (vars s) r) (m_dataType (vars s (m_dataFields r)))
                          (nd_device val) (arena s)),
               mem := SetValue (fst (AllocateTensorInArena (Shape (vars s) r)
                          (m_dataType (vars s (m_dataFields r))) (nd_device val) (arena s))) 1 (mem s)\<rparr>))"
  using assms by (simp add: seed_root_gradient_def Let_def split_beta)

lemma seed_root_gradient_overwrites:
  "seed_root_gradient r (set_gradient (m_dataFields r) old s) = seed_root_gradient r s"
  by (simp add: seed_root_gradient_def set_gradient_def Let_def split_beta Shape_def
        split: option.splits)

text \<open>
  C10. \<open>Backward\<close>, once the forward pass and the discovery of the consumers have
  returned, always goes on with the seed: the gradient slot of the root gets a tensor that
  the allocator hands out at that moment (an object that did not exist before), of the
  root's shape, with every element set to 1, whatever gradient the root held before; only
  then the requested gradients are implanted and aggregated.
\<close>

theorem Backward_seeds_root_gradient:
  "(m_value (vars s (m_dataFields r)) = Some val \<longrightarrow>
      (\<exists>g s'. seed_root_gradient r s = Inr s' \<and>
          g = fst (AllocateTensorInArena (Shape (vars s) r) (m_dataType (vars s (m_dataFields r)))
                     (nd_device val) (arena s)) \<and>
          m_gradient (vars s' (m_dataFields r)) = Some g \<and>
          nd_shape g = Shape (vars s) r \<and>
          (\<forall>i\<in>nd_range g. mem s' (nd_buffer g) i = 1) \<and>
          next_id (arena s) \<le> nd_id g)) \<and>
   seed_root_gradient r (set_gradient (m_dataFields r) old s) = seed_root_gradient r s \<and>
   (GetValue K n r s = Inr (val, s1) \<and> DetermineConsumersForBackward n r s1 = Inr s2 \<longrightarrow>
      (\<exists>s3. seed_root_gradient r s2 = Inr s3 \<and>
         Backward K n r gradients s =
           (case aggregate_all K n gradients (implant_user_gradients gradients s3) of
              Inl e \<Rightarrow> Inl e
            | Inr s4 \<Rightarrow>
                Inr (collect_gradients gradients s4, clear_requested_consumers gradients s4))))"
proof (intro conjI impI)
  assume v: "m_value (vars s (m_dataFields r)) = Some val"
  let ?g = "fst (AllocateTensorInArena (Shape (vars s) r) (m_dataType (vars s (m_dataFields r)))
                     (nd_device val) (arena s))"
  let ?a = "snd (AllocateTensorInArena (Shape (vars s) r) (m_dataType (vars s (m_dataFields r)))
                     (nd_device val) (arena s))"
  let ?s' = "set_gradient (m_dataFields r) (Some ?g) (s\<lparr>arena := ?a, mem := SetValue ?g 1 (mem s)\<rparr>)"
  have 1: "seed_root_gradient r s = Inr ?s'" by (rule seed_root_gradient_result[OF v])
  have 2: "m_gradient (vars ?s' (m_dataFields r)) = Some ?g" by (simp add: set_gradient_def)
  have "AllocateTensorInArena (Shape (vars s) r) (m_dataType (vars s (m_dataFields r)))
                     (nd_device val) (arena s) = (?g, ?a)" by simp
  then have 3: "nd_shape ?g = Shape (vars s) r" by (rule Allocate_shape)
  have 4: "\<forall>i\<in>nd_range ?g. mem ?s' (nd_buffer ?g) i = 1"
    by (simp add: set_gradient_def SetValue_def)
  have 5: "next_id (arena s) \<le> nd_id ?g" by (rule Allocate_new_id)
  from 1 2 3 4 5
  show "\<exists>g s'. seed_root_gradient r s = Inr s' \<and>
          g = fst (AllocateTensorInArena (Shape (vars s) r) (m_dataType (vars s (m_dataFields r)))
                     (nd_device val) (arena s)) \<and>
          m_gradient (vars s' (m_dataFields r)) = Some g \<and>
          nd_shape g = Shape (vars s) r \<and>
          (\<forall>i\<in>nd_range g. mem s' (nd_buffer g) i = 1) \<and>
          next_id (arena s) \<le> nd_id g"
    by blast
next
  show "seed_root_gradient r (set_gradient (m_dataFields r) old s) = seed_root_gradient r s"
    by (rule seed_root_gradient_overwrites)
next
  assume "GetValue K n r s = Inr (val, s1) \<and> DetermineConsumersForBackward n r s1 = Inr s2"
  then have g: "GetValue K n r s = Inr (val, s1)"
    and d: "DetermineConsumersForBackward n r s1 = Inr s2" by blast+
  have "m_value (vars s1 (m_dataFields r)) = Some val" by (rule GetValue_post[OF g])
  with DetermineConsumersForBackward_value[OF d, of "m_dataFields r"]
  have v2: "m_value (vars s2 (m_dataFields r)) = Some val" by simp
  from seed_root_gradient_result[OF v2] obtain s3 where s3: "seed_root_gradient r s2 = Inr s3"
    by blast
  have "Backward K n r gradients s =
           (case aggregate_all K n gradients (implant_user_gradients gradients s3) of
              Inl e \<Rightarrow> Inl e
            | Inr s4 \<Rightarrow>
                Inr (collect_gradients gradients s4, clear_requested_consumers gradients s4))"
    by (simp add: Backward_def g d s3)
  with s3 show "\<exists>s3. seed_root_gradient r s2 = Inr s3 \<and>
         Backward K n r gradients s =
           (case aggregate_all K n gradients (implant_user_gradients gradients s3) of
              Inl e \<Rightarrow> Inl e
            | Inr s4 \<Rightarrow>
                Inr (collect_gradients gradients s4, clear_requested_consumers gradients s4))"
    by blast
qed

text \<open>
  The theorem at work: the root of the example chain holds a value and an old gradient
  (tensor 150); the seed replaces the gradient by the new tensor 202 of shape \<open>[2]\<close>,
  both elements of which are 1.
\<close>

theorem Backward_seeds_root_gradient_witness:
  "m_gradient (vars (projr (seed_root_gradient (variable_at 42)
      (set_gradient 42 (Some (example_tensor 150 [2]))
         (set_value 42 (Some (example_tensor 141 [2])) example_root_state)))) 42) =
     Some \<lparr>nd_id = 202, nd_buffer = 200, nd_offset = 0, nd_shape = [2],
            nd_dataType = 0, nd_device = 0, nd_sparse = False\<rparr> \<and>
   mem (projr (seed_root_gradient (variable_at 42)
      (set_gradient 42 (Some (example_tensor 150 [2]))
         (set_value 42 (Some (example_tensor 141 [2])) example_root_state)))) 200 0 = 1 \<and>
   mem (projr (seed_root_gradient (variable_at 42)
      (set_gradient 42 (Some (example_tensor 150 [2]))
         (set_value 42 (Some (example_tensor 141 [2])) example_root_state)))) 200 1 = 1"
proof -
  let ?s = "set_value 42 (Some (example_tensor 141 [2])) example_root_state"
  let ?g = "\<lparr>nd_id = 202, nd_buffer = 200, nd_offset = 0, nd_shape = [2],
            nd_dataType = 0, nd_device = 0, nd_sparse = False\<rparr>"
  have v: "m_value (vars ?s (m_dataFields (variable_at 42))) = Some (example_tensor 141 [2])"
    by (simp add: set_value_def variable_at_def)
  have al: "fst (AllocateTensorInArena (Shape (vars ?s) (variable_at 42))
      (m_dataType (vars ?s (m_dataFields (variable_at 42)))) (nd_device (example_tensor 141 [2]))
      (arena ?s)) = ?g"
    by (simp add: example_run)
  note t = Backward_seeds_root_gradient[of ?s "variable_at 42" "example_tensor 141 [2]"
      "Some (example_tensor 150 [2])"]
  from t v obtain s' where
    s': "seed_root_gradient (variable_at 42) ?s = Inr s'"
    and g: "m_gradient (vars s' (m_dataFields (variable_at 42))) = Some ?g"
    and ones: "\<forall>i\<in>nd_range ?g. mem s' (nd_buffer ?g) i = 1"
    unfolding al by blast
  from t have ow: "seed_root_gradient (variable_at 42)
      (set_gradient (m_dataFields (variable_at 42)) (Some (example_tensor 150 [2])) ?s) =
      seed_root_gradient (variable_at 42) ?s" by blast
  have d: "m_dataFields (variable_at 42) = 42" by (simp add: variable_at_def)
  have r0: "(0::nat) \<in> nd_range ?g" and r1: "(1::nat) \<in> nd_range ?g"
    by (simp_all add: nd_range_def TotalSize_def)
  from ones r0 r1 have "mem s' 200 0 = 1" and "mem s' 200 1 = 1" by auto
  with g show ?thesis using ow s' unfolding d by simp
qed

text \<open>
  What \<open>DetermineConsumersForBackward\<close> leaves on a function it returns from: a
  counter that is not -1, and 0 when the function was idle.
\<close>

lemma DetermineConsumersForBackward_f_marks:
  assumes "DetermineConsumersForBackward_f n f s = Inr s'"
  shows "m_pendingInputs (funs s' f) \<noteq> - 1"
    and "m_pendingInputs (funs s f) = - 1 \<Longrightarrow> m_pendingInputs (funs s' f) = 0"
proof -
  from assms obtain k where n: "n = Suc k" by (cases n) auto
  from assms[unfolded n]
  have "(m_pendingInputs (funs s f) \<noteq> - 1 \<and> s' = s) \<or>
        (m_pendingInputs (funs s f) = - 1 \<and> (\<exists>s2. s' = set_pendingInputs f 0 s2))"
    by (auto simp add: Let_def split: if_splits sum.splits)
  then show "m_pendingInputs (funs s' f) \<noteq> - 1"
    and "m_pendingInputs (funs s f) = - 1 \<Longrightarrow> m_pendingInputs (funs s' f) = 0"
    by auto
qed

text \<open>
  C6 on the example chain, through the two public calls. Before the calls every function
  is idle (-1) and no variable has a consumer, and after \<open>BatchedForward\<close> it is so
  again. After \<open>BatchedBackward\<close> both functions are left with 0 pending inputs and
  variable 41 still has its consumer; only the consumers of the requested parameter 40
  were cleared. A second \<open>BatchedBackward\<close> from that state finds the functions
  visited, sets up no consumers, and returns no gradient for the parameter.
\<close>

theorem BatchedBackward_leaves_pending_inputs:
  "m_pendingInputs (funs example_root_state 45) = - 1 \<and>
   m_pendingInputs (funs example_root_state 46) = - 1 \<and>
   m_consumers (vars example_root_state 41) = ((None, 0), []) \<and>
   (case BatchedForward example_kernels 9 46 example_root_state of
      Inr (val, s) \<Rightarrow>
        m_pendingInputs (funs s 45) = - 1 \<and> m_pendingInputs (funs s 46) = - 1 \<and>
        m_consumers (vars s 40) = ((None, 0), []) \<and> m_consumers (vars s 41) = ((None, 0), []) \<and>
        m_consumers (vars s 42) = ((None, 0), [])
    | Inl e \<Rightarrow> False) \<and>
   (case BatchedBackward example_kernels 9 46 [(variable_at 40, None)] example_root_state of
      Inr (gradients, s) \<Rightarrow>
        m_pendingInputs (funs s 45) = 0 \<and> m_pendingInputs (funs s 46) = 0 \<and>
        m_consumers (vars s 40) = ((None, 0), []) \<and>
        m_consumers (vars s 41) = ((Some 46, 0), []) \<and>
        map snd gradients \<noteq> [None] \<and>
        (case BatchedBackward example_kernels 9 46 [(variable_at 40, None)] s of
           Inr (gradients2, s2) \<Rightarrow> map snd gradients2 = [None]
         | Inl e \<Rightarrow> False)
    | Inl e \<Rightarrow> False)"
  unfolding fuel_9 by (simp add: example_run)

section \<open>Executing a batch\<close>

lemma next_fun_setters [simp]:
  "next_fun (set_value d x s) = next_fun s"
  "next_fun (set_gradient d g s) = next_fun s"
  "next_fun (set_lazyIndex d l s) = next_fun s"
  "next_fun (set_consumers d c s) = next_fun s"
  "next_fun (clear_consumers d s) = next_fun s"
  "next_fun (set_pendingInputs f k s) = next_fun s"
  by (simp_all add: set_value_def set_gradient_def set_lazyIndex_def set_consumers_def
        clear_consumers_def set_pendingInputs_def)










lemma RawPrimitiveFunction_next_fun:
  "RawPrimitiveFunction op ins sh attrs s = (f, s') \<Longrightarrow> f = next_fun s \<and> next_fun s' = next_fun s + 1"
  by (auto simp add: RawPrimitiveFunction_def Let_def)





lemma doNaively_launches [simp]:
  "doNaively (s\<lparr>m_numBatchedLaunches := k\<rparr>) ops = doNaively s ops"
  by (cases ops) (simp_all add: doNaively_def Let_def cong: if_cong)





section \<open>Ready functions with different numbers of inputs\<close>

text \<open>
  C1. The number of inputs is not part of what \<open>AreBatchable\<close> compares. Functions 30
  and 31 of the example are two \<open>Splice\<close> functions, which are no view ops, with the
  same attributes, over inputs of one shape; 30 has two inputs and 31 has three. In a
  build with \<open>NDEBUG\<close>, \<open>AreBatchable\<close> is true of 30 and 31, and \<open>Schedule\<close>
  puts 30 into the regular set that 31 heads; the other way round the loop reads the third
  input of 30, which does not exist. In a build without \<open>NDEBUG\<close> the \<open>assert\<close> on
  the two numbers stops the program. In no build is the answer false. So on the graph
  with both functions, \<open>BatchedForward\<close> in a build without \<open>NDEBUG\<close> is stopped by
  the \<open>assert\<close> from either root; in a build with \<open>NDEBUG\<close> it reads past the
  inputs from the root 36, and from the root 34 it runs the two functions as one batch, in
  two launches for the three functions.
\<close>

theorem AreBatchable_arity_not_compared:
  "m_op (example_splices 30) = m_op (example_splices 31) \<and>
   \<not> IsViewOp (m_op (example_splices 30)) \<and>
   m_attributes (example_splices 30) = m_attributes (example_splices 31) \<and>
   length (m_inputs (example_splices 30)) = 2 \<and>
   length (m_inputs (example_splices 31)) = 3 \<and>
   AreBatchable True example_vars (example_splices 30) (example_splices 31) = Inr True \<and>
   Schedule True example_vars example_splices 30 (no_ready_ops\<lparr>m_regularOps := [[31]]\<rparr>) =
     Inr (no_ready_ops\<lparr>m_regularOps := [[31, 30]]\<rparr>) \<and>
   AreBatchable True example_vars (example_splices 31) (example_splices 30) = Inl IndexOutOfRange \<and>
   AreBatchable False example_vars (example_splices 30) (example_splices 31) = Inl AssertionFailed \<and>
   AreBatchable False example_vars (example_splices 31) (example_splices 30) = Inl AssertionFailed \<and>
   BatchedForward example_kernels 9 34 example_splice_state = Inl AssertionFailed \<and>
   BatchedForward example_kernels 9 36 example_splice_state = Inl AssertionFailed \<and>
   BatchedForward (example_kernels\<lparr>NDEBUG := True\<rparr>) 9 36 example_splice_state = Inl IndexOutOfRange \<and>
   (case BatchedForward (example_kernels\<lparr>NDEBUG := True\<rparr>) 9 34 example_splice_state of
      Inr (val, s) \<Rightarrow> m_numBatchedLaunches s = 2
    | Inl e \<Rightarrow> False)"
proof -
  note run = example_run example_splice_state_def example_splices_def example_splice_def
    example_vars_def example_funs_def AreBatchable_def inputs_match_def upt_rec
  have e1: "BatchedForward example_kernels 9 34 example_splice_state = Inl AssertionFailed"
    unfolding fuel_9 by (simp add: run)
  have e2: "BatchedForward example_kernels 9 36 example_splice_state = Inl AssertionFailed"
    unfolding fuel_9 by (simp add: run)
  have e3: "BatchedForward (example_kernels\<lparr>NDEBUG := True\<rparr>) 9 36 example_splice_state =
      Inl IndexOutOfRange"
    unfolding fuel_9 by (simp add: run)
  have e4: "(case BatchedForward (example_kernels\<lparr>NDEBUG := True\<rparr>) 9 34 example_splice_state of
      Inr (val, s) \<Rightarrow> m_numBatchedLaunches s = 2
    | Inl e \<Rightarrow> False)"
    unfolding fuel_9 by (simp add: run)
  have f: "example_splices 30 = example_splice [12, 12] 32"
    "example_splices 31 = example_splice [12, 12, 12] 33"
    by (simp_all add: example_splices_def)
  have c1: "m_op (example_splices 30) = m_op (example_splices 31)"
    and c2: "\<not> IsViewOp (m_op (example_splices 30))"
    and c3: "m_attributes (example_splices 30) = m_attributes (example_splices 31)"
    and c4: "length (m_inputs (example_splices 30)) = 2"
    and c5: "length (m_inputs (example_splices 31)) = 3"
    by (simp_all add: f example_splice_def example_function_def IsViewOp_def)
  have c6: "AreBatchable True example_vars (example_splices 30) (example_splices 31) = Inr True"
    by (simp add: AreBatchable_def Let_def f example_splice_def example_function_def IsViewOp_def
          inputs_match_def variable_at_def upt_rec Shape_def)
  have c7: "Schedule True example_vars example_splices 30 (no_ready_ops\<lparr>m_regularOps := [[31]]\<rparr>) =
     Inr (no_ready_ops\<lparr>m_regularOps := [[31, 30]]\<rparr>)"
    using c6 c2 by (simp add: Schedule_regular)
  have c8: "AreBatchable True example_vars (example_splices 31) (example_splices 30) = Inl IndexOutOfRange"
    by (simp add: AreBatchable_def Let_def f example_splice_def example_function_def IsViewOp_def
          inputs_match_def variable_at_def upt_rec Shape_def)
  have c9: "AreBatchable False example_vars (example_splices 30) (example_splices 31) = Inl AssertionFailed"
    and c10: "AreBatchable False example_vars (example_splices 31) (example_splices 30) = Inl AssertionFailed"
    by (simp_all add: AreBatchable_def Let_def f example_splice_def example_function_def IsViewOp_def)
  from c1 c2 c3 c4 c5 c6 c7 c8 c9 c10 e1 e2 e3 e4 show ?thesis by blast
qed

end
